theory Spec2Isabelle
  imports Main "HOL-Library.Word" "HOL-Library.Sublist"
begin

section \<open>Platform values used by worker.js\<close>

text \<open>
  A \<^verbatim>\<open>Uint8Array\<close> is a list of 8-bit words. A JavaScript string is a \<open>string\<close>
  holding the UTF-8 bytes of its text (one \<open>char\<close> for an ASCII character, several for
  any other); the strings the worker handles come out of a UTF-8 decoder or a URL parser,
  so they are well-formed. A JavaScript number that can be \<^verbatim>\<open>NaN\<close> is an
  \<open>int option\<close> with \<open>None\<close> for \<^verbatim>\<open>NaN\<close>; the rounding of doubles above
  \<open>2 ^ 53\<close> is not modelled.
\<close>

type_synonym byte = "8 word"
type_synonym jsnumber = "int option"

subsection \<open>Typed-array operations\<close>

text \<open>\<^verbatim>\<open>buffer.indexOf(v)\<close>: the first index holding \<open>v\<close>, \<open>None\<close> for \<^verbatim>\<open>-1\<close>.\<close>

fun indexOf :: "'a list \<Rightarrow> 'a \<Rightarrow> nat option" where
  "indexOf [] v = None"
| "indexOf (x # xs) v = (if x = v then Some 0 else map_option Suc (indexOf xs v))"

text \<open>
  The relative index of \<^verbatim>\<open>slice\<close>: a negative argument counts from the end, and
  every argument is clamped to the array.
\<close>

definition relIndex :: "nat \<Rightarrow> int \<Rightarrow> nat" where
  "relIndex len i = (if i < 0 then nat (max (int len + i) 0) else min (nat i) len)"

definition slice :: "'a list \<Rightarrow> int \<Rightarrow> int \<Rightarrow> 'a list" where
  "slice xs start fin =
     (let k = relIndex (length xs) start; f = relIndex (length xs) fin
      in take (f - k) (drop k xs))"

definition slice_from :: "'a list \<Rightarrow> int \<Rightarrow> 'a list" where
  "slice_from xs start = drop (relIndex (length xs) start) xs"

text \<open>\<^verbatim>\<open>ToIntegerOrInfinity\<close>, which \<^verbatim>\<open>slice\<close> applies to its arguments: \<^verbatim>\<open>NaN\<close> is 0.\<close>

definition ToInteger :: "jsnumber \<Rightarrow> int" where
  "ToInteger x = (case x of None \<Rightarrow> 0 | Some n \<Rightarrow> n)"

definition isNaN :: "jsnumber \<Rightarrow> bool" where
  "isNaN x = (x = None)"

text \<open>\<^verbatim>\<open>a < b\<close> on numbers: false when an operand is \<^verbatim>\<open>NaN\<close>.\<close>

definition js_less :: "jsnumber \<Rightarrow> jsnumber \<Rightarrow> bool" where
  "js_less a b = (case (a, b) of (Some x, Some y) \<Rightarrow> x < y | _ \<Rightarrow> False)"

definition js_plus :: "jsnumber \<Rightarrow> jsnumber \<Rightarrow> jsnumber" where
  "js_plus a b = (case (a, b) of (Some x, Some y) \<Rightarrow> Some (x + y) | _ \<Rightarrow> None)"

subsection \<open>White space, \<^verbatim>\<open>parseInt\<close> and \<^verbatim>\<open>TextDecoder\<close>\<close>

text \<open>
  The white space and line terminator characters of ECMAScript, which \<^verbatim>\<open>parseInt\<close>
  skips and \<^verbatim>\<open>trim\<close> removes, each as its UTF-8 bytes: U+0009 to U+000D, U+0020,
  U+00A0, U+1680, U+2000 to U+200A, U+2028, U+2029, U+202F, U+205F, U+3000, U+FEFF.
\<close>

definition StrWhiteSpaceChar :: "string list" where
  "StrWhiteSpaceChar =
     [[CHR 0x09], [CHR 0x0A], [CHR 0x0B], [CHR 0x0C], [CHR 0x0D], [CHR 0x20],
      [CHR 0xC2, CHR 0xA0], [CHR 0xE1, CHR 0x9A, CHR 0x80],
      [CHR 0xE2, CHR 0x80, CHR 0x80], [CHR 0xE2, CHR 0x80, CHR 0x81],
      [CHR 0xE2, CHR 0x80, CHR 0x82], [CHR 0xE2, CHR 0x80, CHR 0x83],
      [CHR 0xE2, CHR 0x80, CHR 0x84], [CHR 0xE2, CHR 0x80, CHR 0x85],
      [CHR 0xE2, CHR 0x80, CHR 0x86], [CHR 0xE2, CHR 0x80, CHR 0x87],
      [CHR 0xE2, CHR 0x80, CHR 0x88], [CHR 0xE2, CHR 0x80, CHR 0x89],
      [CHR 0xE2, CHR 0x80, CHR 0x8A], [CHR 0xE2, CHR 0x80, CHR 0xA8],
      [CHR 0xE2, CHR 0x80, CHR 0xA9], [CHR 0xE2, CHR 0x80, CHR 0xAF],
      [CHR 0xE2, CHR 0x81, CHR 0x9F], [CHR 0xE3, CHR 0x80, CHR 0x80],
      [CHR 0xEF, CHR 0xBB, CHR 0xBF]]"

text \<open>The number of bytes of the white space character a string starts (ends) with, 0 for none.\<close>

definition ws_prefix_len :: "string \<Rightarrow> nat" where
  "ws_prefix_len s = (case filter (\<lambda>w. prefix w s) StrWhiteSpaceChar of [] \<Rightarrow> 0 | w # _ \<Rightarrow> length w)"

definition ws_suffix_len :: "string \<Rightarrow> nat" where
  "ws_suffix_len s = (case filter (\<lambda>w. suffix w s) StrWhiteSpaceChar of [] \<Rightarrow> 0 | w # _ \<Rightarrow> length w)"

lemma StrWhiteSpaceChar_nonempty: "w \<in> set StrWhiteSpaceChar \<Longrightarrow> w \<noteq> []"
  by (auto simp: StrWhiteSpaceChar_def)

lemma ws_prefix_len_pos: "ws_prefix_len s \<noteq> 0 \<Longrightarrow> s \<noteq> []"
proof
  assume nz: "ws_prefix_len s \<noteq> 0" and e: "s = []"
  have "filter (\<lambda>w. prefix w []) StrWhiteSpaceChar = []"
    using StrWhiteSpaceChar_nonempty by (auto simp: filter_empty_conv)
  with nz e show False by (simp add: ws_prefix_len_def)
qed

lemma ws_suffix_len_pos: "ws_suffix_len s \<noteq> 0 \<Longrightarrow> s \<noteq> []"
proof
  assume nz: "ws_suffix_len s \<noteq> 0" and e: "s = []"
  have "filter (\<lambda>w. suffix w []) StrWhiteSpaceChar = []"
    using StrWhiteSpaceChar_nonempty by (auto simp: filter_empty_conv)
  with nz e show False by (simp add: ws_suffix_len_def)
qed

function trimStart :: "string \<Rightarrow> string" where
  "trimStart s = (if ws_prefix_len s = 0 then s else trimStart (drop (ws_prefix_len s) s))"
  by pat_completeness auto
termination
  by (relation "measure length") (use ws_prefix_len_pos in fastforce)+

function trimEnd :: "string \<Rightarrow> string" where
  "trimEnd s = (if ws_suffix_len s = 0 then s
                else trimEnd (take (length s - ws_suffix_len s) s))"
  by pat_completeness auto
termination
  by (relation "measure length") (use ws_suffix_len_pos in fastforce)+

declare trimStart.simps [simp del] trimEnd.simps [simp del]

definition trim :: "string \<Rightarrow> string" where
  "trim s = trimEnd (trimStart s)"

text \<open>The value of a hexadecimal digit.\<close>

definition hexDigit :: "char \<Rightarrow> nat option" where
  "hexDigit c =
     (let n = (of_char c :: nat) in
      if 48 \<le> n \<and> n \<le> 57 then Some (n - 48)
      else if 97 \<le> n \<and> n \<le> 102 then Some (n - 87)
      else if 65 \<le> n \<and> n \<le> 70 then Some (n - 55)
      else None)"

text \<open>
  \<^verbatim>\<open>parseInt(str, 16)\<close>: skip leading white space, read a sign, skip a prefix
  \<^verbatim>\<open>0x\<close> or \<^verbatim>\<open>0X\<close>, read the longest run of hexadecimal digits; \<^verbatim>\<open>NaN\<close>
  when the run is empty.
\<close>

definition parseInt16 :: "string \<Rightarrow> jsnumber" where
  "parseInt16 str =
     (let S = trimStart str;
          sign = (if take 1 S = ''-'' then - 1 else 1 :: int);
          S1 = (if take 1 S = ''+'' \<or> take 1 S = ''-'' then drop 1 S else S);
          S2 = (if take 2 S1 = ''0x'' \<or> take 2 S1 = ''0X'' then drop 2 S1 else S1);
          Z = takeWhile (\<lambda>c. hexDigit c \<noteq> None) S2
      in if Z = [] then None
         else Some (sign * int (foldl (\<lambda>a c. 16 * a + the (hexDigit c)) 0 Z)))"

text \<open>
  One step of the UTF-8 decoder at the head of a non-empty byte string: whether the head
  is a well-formed character, and how many bytes the decoder consumes (for an ill-formed
  head, the bytes it replaces by one U+FFFD).
\<close>

definition in_range :: "nat \<Rightarrow> nat \<Rightarrow> string \<Rightarrow> bool" where
  "in_range lo hi s = (case s of [] \<Rightarrow> False | c # _ \<Rightarrow> lo \<le> of_char c \<and> (of_char c :: nat) \<le> hi)"

definition utf8_step :: "string \<Rightarrow> bool \<times> nat" where
  "utf8_step s =
     (let b = (of_char (hd s) :: nat) in
      if b < 0x80 then (True, 1)
      else if 0xC2 \<le> b \<and> b \<le> 0xDF then
        (if in_range 0x80 0xBF (drop 1 s) then (True, 2) else (False, 1))
      else if 0xE0 \<le> b \<and> b \<le> 0xEF then
        (if \<not> in_range (if b = 0xE0 then 0xA0 else 0x80) (if b = 0xED then 0x9F else 0xBF) (drop 1 s)
         then (False, 1)
         else if in_range 0x80 0xBF (drop 2 s) then (True, 3) else (False, 2))
      else if 0xF0 \<le> b \<and> b \<le> 0xF4 then
        (if \<not> in_range (if b = 0xF0 then 0x90 else 0x80) (if b = 0xF4 then 0x8F else 0xBF) (drop 1 s)
         then (False, 1)
         else if \<not> in_range 0x80 0xBF (drop 2 s) then (False, 2)
         else if in_range 0x80 0xBF (drop 3 s) then (True, 4) else (False, 3))
      else (False, 1))"

lemma utf8_step_pos: "0 < snd (utf8_step s)"
  by (simp add: utf8_step_def Let_def)

lemma drop_step_shorter:
  "length (drop (snd (utf8_step (c # cs))) (c # cs)) < length (c # cs)"
  using utf8_step_pos [of "c # cs"] by simp

text \<open>The UTF-8 decoder with replacement: every ill-formed unit becomes U+FFFD.\<close>

function utf8_replace :: "string \<Rightarrow> string" where
  "utf8_replace [] = []"
| "utf8_replace (c # cs) =
     (if fst (utf8_step (c # cs)) then take (snd (utf8_step (c # cs))) (c # cs)
      else [CHR 0xEF, CHR 0xBF, CHR 0xBD])
     @ utf8_replace (drop (snd (utf8_step (c # cs))) (c # cs))"
  by pat_completeness auto
termination
  by (relation "measure length") (use drop_step_shorter in auto)

text \<open>Whether a byte string is well-formed UTF-8.\<close>

function utf8_valid :: "string \<Rightarrow> bool" where
  "utf8_valid [] = True"
| "utf8_valid (c # cs) =
     (fst (utf8_step (c # cs)) \<and> utf8_valid (drop (snd (utf8_step (c # cs))) (c # cs)))"
  by pat_completeness auto
termination
  by (relation "measure length") (use drop_step_shorter in auto)

definition char_of_byte :: "byte \<Rightarrow> char" where
  "char_of_byte b = char_of (unat b)"

definition bytes_of :: "string \<Rightarrow> byte list" where
  "bytes_of s = map (\<lambda>c. of_nat (of_char c)) s"

text \<open>
  \<^verbatim>\<open>new TextDecoder().decode(bytes)\<close>: UTF-8 with replacement, after a leading byte
  order mark is dropped.
\<close>

definition TextDecoder_decode :: "byte list \<Rightarrow> string" where
  "TextDecoder_decode bs =
     (let s = map char_of_byte bs
      in utf8_replace (if take 3 s = [CHR 0xEF, CHR 0xBB, CHR 0xBF] then drop 3 s else s))"

section \<open>DechunkingStream\<close>

datatype dstate = SIZE | DATA | FOOTER

record DechunkingStream =
  buffer :: "byte list"
  state :: dstate
  chunkSize :: jsnumber

text \<open>The constructor.\<close>

definition DechunkingStream_new :: DechunkingStream where
  "DechunkingStream_new = \<lparr>buffer = [], state = SIZE, chunkSize = Some 0\<rparr>"

text \<open>What a call of \<^verbatim>\<open>transform\<close> does to its controller, in order.\<close>

datatype event = Enqueue "byte list" | Error string

definition merge :: "byte list \<Rightarrow> byte list \<Rightarrow> byte list" where
  "merge a b = a @ b"

text \<open>
  One pass through the body of the \<^verbatim>\<open>while\<close> loop of \<^verbatim>\<open>transform\<close>: it leaves the
  loop (\<open>Break\<close>), leaves the function after \<^verbatim>\<open>controller.error\<close> (\<open>Return\<close>), or
  goes round again (\<open>Continue\<close>), with what it enqueued and the fields it assigned.
\<close>

datatype pass = Break | Return event DechunkingStream | Continue "event list" DechunkingStream

definition loop_body :: "DechunkingStream \<Rightarrow> pass" where
  "loop_body d =
     (case state d of
        SIZE \<Rightarrow>
          (case indexOf (buffer d) 13 of
             None \<Rightarrow> Break
           | Some lineEnd \<Rightarrow>
               (let sizeStr = TextDecoder_decode (slice (buffer d) 0 (int lineEnd));
                    d1 = d\<lparr>chunkSize := parseInt16 sizeStr\<rparr>;
                    d2 = d1\<lparr>buffer := slice_from (buffer d1) (int lineEnd + 2)\<rparr>
                in if isNaN (chunkSize d2)
                   then Return (Error (''Invalid chunk size: '' @ sizeStr)) d2
                   else if chunkSize d2 = Some 0
                   then Continue [] (d2\<lparr>state := FOOTER\<rparr>)
                   else Continue [] (d2\<lparr>state := DATA\<rparr>)))
      | DATA \<Rightarrow>
          (if js_less (Some (int (length (buffer d)))) (chunkSize d) then Break
           else Continue [Enqueue (slice (buffer d) 0 (ToInteger (chunkSize d)))]
                  (d\<lparr>buffer := slice_from (buffer d) (ToInteger (js_plus (chunkSize d) (Some 2))),
                     state := SIZE\<rparr>))
      | FOOTER \<Rightarrow>
          (case indexOf (buffer d) 13 of
             None \<Rightarrow> Break
           | Some lineEnd \<Rightarrow>
               (let d1 = d\<lparr>buffer := slice_from (buffer d) (int lineEnd + 2)\<rparr>
                in Continue [] (if lineEnd = 0 then d1\<lparr>buffer := []\<rparr> else d1))))"

text \<open>The loop goes round with a shorter buffer, or with the same one from DATA to SIZE.\<close>

definition loop_measure :: "DechunkingStream \<Rightarrow> nat" where
  "loop_measure d = 2 * length (buffer d) + (if state d = DATA then 1 else 0)"

lemma length_slice_from: "length (slice_from xs i) \<le> length xs"
  by (simp add: slice_from_def)

lemma length_slice_from_less: "xs \<noteq> [] \<Longrightarrow> 0 < i \<Longrightarrow> length (slice_from xs i) < length xs"
  by (cases xs) (auto simp: slice_from_def relIndex_def min_def)

lemma loop_body_decreases:
  assumes "buffer d \<noteq> []" and "loop_body d = Continue es d'"
  shows "loop_measure d' < loop_measure d"
proof (cases "state d")
  case SIZE
  with assms obtain lineEnd where
    b: "buffer d' = slice_from (buffer d) (int lineEnd + 2)"
    by (auto simp: loop_body_def Let_def split: option.splits if_splits)
  have "length (slice_from (buffer d) (int lineEnd + 2)) < length (buffer d)"
    using assms(1) by (intro length_slice_from_less) auto
  with b SIZE show ?thesis by (simp add: loop_measure_def)
next
  case DATA
  with assms have "state d' = SIZE" and "length (buffer d') \<le> length (buffer d)"
    by (auto simp: loop_body_def length_slice_from split: if_splits)
  with DATA show ?thesis by (simp add: loop_measure_def)
next
  case FOOTER
  with assms obtain lineEnd where
    b: "buffer d' = slice_from (buffer d) (int lineEnd + 2) \<or> buffer d' = []"
    and s: "state d' = FOOTER"
    by (fastforce simp: loop_body_def Let_def split: option.splits if_splits)
  have "length (slice_from (buffer d) (int lineEnd + 2)) < length (buffer d)"
    using assms(1) by (intro length_slice_from_less) auto
  with b s FOOTER assms(1) show ?thesis by (auto simp: loop_measure_def)
qed

function transform_loop :: "DechunkingStream \<Rightarrow> event list \<times> DechunkingStream" where
  "transform_loop d =
     (if length (buffer d) > 0 then
        (case loop_body d of
           Break \<Rightarrow> ([], d)
         | Return e d' \<Rightarrow> ([e], d')
         | Continue es d' \<Rightarrow> (case transform_loop d' of (es', d'') \<Rightarrow> (es @ es', d'')))
      else ([], d))"
  by pat_completeness auto
termination
  by (relation "measure loop_measure") (auto dest: loop_body_decreases)

declare transform_loop.simps [simp del]

definition transform :: "DechunkingStream \<Rightarrow> byte list \<Rightarrow> event list \<times> DechunkingStream" where
  "transform d chunk = transform_loop (d\<lparr>buffer := merge (buffer d) chunk\<rparr>)"

text \<open>
  The stream the transformer is attached to (\<^verbatim>\<open>new TransformStream(new DechunkingStream())\<close>):
  it calls \<^verbatim>\<open>transform\<close> once for every buffer written, in order, and once
  \<^verbatim>\<open>controller.error\<close> has been called the stream is errored and \<^verbatim>\<open>transform\<close> is not
  called again.
\<close>

definition errored :: "event list \<Rightarrow> bool" where
  "errored es = list_ex (\<lambda>e. case e of Error _ \<Rightarrow> True | Enqueue _ \<Rightarrow> False) es"

fun pipeThrough :: "DechunkingStream \<Rightarrow> byte list list \<Rightarrow> event list" where
  "pipeThrough d [] = []"
| "pipeThrough d (chunk # chunks) =
     (case transform d chunk of
        (es, d') \<Rightarrow> if errored es then es else es @ pipeThrough d' chunks)"

text \<open>A run in which an error, if there is one, is the last event.\<close>

definition error_only_last :: "event list \<Rightarrow> bool" where
  "error_only_last es = (\<not> errored (butlast es))"

text \<open>
  The bytes the decoder has enqueued, in order. This is the record of the calls of
  \<^verbatim>\<open>controller.enqueue\<close>, not what a consumer reads: \<^verbatim>\<open>controller.error\<close> empties the
  queue of the readable side, so buffers enqueued before an error and not yet read are
  never delivered.
\<close>

fun emitted :: "event list \<Rightarrow> byte list" where
  "emitted [] = []"
| "emitted (Enqueue bs # es) = bs @ emitted es"
| "emitted (Error m # es) = emitted es"

section \<open>String operations of the handler\<close>

definition startsWith :: "string \<Rightarrow> string \<Rightarrow> bool" where
  "startsWith s p = prefix p s"

text \<open>\<^verbatim>\<open>s.includes(p)\<close>: \<open>p\<close> occurs in \<open>s\<close>.\<close>

fun str_includes :: "string \<Rightarrow> string \<Rightarrow> bool" where
  "str_includes [] p = (p = [])"
| "str_includes (c # cs) p = (prefix p (c # cs) \<or> str_includes cs p)"

text \<open>\<^verbatim>\<open>s.lastIndexOf(c)\<close> for a one-character string, \<open>None\<close> for \<^verbatim>\<open>-1\<close>.\<close>

definition lastIndexOf :: "string \<Rightarrow> char \<Rightarrow> nat option" where
  "lastIndexOf s c =
     (case indexOf (rev s) c of None \<Rightarrow> None | Some i \<Rightarrow> Some (length s - 1 - i))"

text \<open>\<^verbatim>\<open>s.split(c)\<close> and \<^verbatim>\<open>lines.join(sep)\<close>.\<close>

fun str_split :: "string \<Rightarrow> char \<Rightarrow> string list" where
  "str_split [] c = [[]]"
| "str_split (x # xs) c =
     (if x = c then [] # str_split xs c
      else (case str_split xs c of [] \<Rightarrow> [[x]] | l # ls \<Rightarrow> (x # l) # ls))"

fun str_join :: "string list \<Rightarrow> string \<Rightarrow> string" where
  "str_join [] sep = []"
| "str_join [l] sep = l"
| "str_join (l # ls) sep = l @ sep @ str_join ls sep"

text \<open>ASCII lower case, as \<^verbatim>\<open>Headers\<close> applies to header names.\<close>

definition lower :: "string \<Rightarrow> string" where
  "lower s = map (\<lambda>c. if 65 \<le> (of_char c :: nat) \<and> (of_char c :: nat) \<le> 90
                        then char_of (of_char c + 32 :: nat) else c) s"

text \<open>The decimal text of a number, as \<^verbatim>\<open>"Upstream error " + response.status\<close> appends it.\<close>

function dec_nat :: "nat \<Rightarrow> string" where
  "dec_nat n = (if n < 10 then [char_of (48 + n)]
                else dec_nat (n div 10) @ [char_of (48 + n mod 10)])"
  by pat_completeness auto
termination
  by (relation "measure id") auto

declare dec_nat.simps [simp del]

definition Number_toString :: "int \<Rightarrow> string" where
  "Number_toString i = (if i < 0 then ''-'' @ dec_nat (nat (- i)) else dec_nat (nat i))"

subsection \<open>\<^verbatim>\<open>encodeURIComponent\<close> and \<^verbatim>\<open>decodeURIComponent\<close>\<close>

text \<open>The characters \<^verbatim>\<open>encodeURIComponent\<close> leaves alone: letters, digits and \<^verbatim>\<open>-_.!~*'()\<close>.\<close>

definition uriUnreserved :: "char \<Rightarrow> bool" where
  "uriUnreserved c =
     (let n = (of_char c :: nat) in
      (65 \<le> n \<and> n \<le> 90) \<or> (97 \<le> n \<and> n \<le> 122) \<or> (48 \<le> n \<and> n \<le> 57)
      \<or> c \<in> set ''-_.!~*()'' \<or> c = CHR 0x27)"

definition hexChar :: "nat \<Rightarrow> char" where
  "hexChar k = (if k < 10 then char_of (48 + k) else char_of (55 + k))"

text \<open>Every byte of the UTF-8 text that is not left alone becomes \<^verbatim>\<open>%XX\<close>, in upper case.\<close>

definition encodeURIComponent :: "string \<Rightarrow> string" where
  "encodeURIComponent s =
     concat (map (\<lambda>c. if uriUnreserved c then [c]
                       else [CHR ''%'', hexChar (of_char c div 16), hexChar (of_char c mod 16)]) s)"

text \<open>
  Percent-decoding: \<open>None\<close> where \<^verbatim>\<open>%\<close> is not followed by two hexadecimal digits.
\<close>

fun percent_decode :: "string \<Rightarrow> string option" where
  "percent_decode [] = Some []"
| "percent_decode (c # cs) =
     (if c = CHR ''%'' then
        (case cs of
           h # l # rest \<Rightarrow>
             (case (hexDigit h, hexDigit l) of
                (Some a, Some b) \<Rightarrow> map_option ((#) (char_of (16 * a + b))) (percent_decode rest)
              | _ \<Rightarrow> None)
         | _ \<Rightarrow> None)
      else map_option ((#) c) (percent_decode cs))"

text \<open>
  \<^verbatim>\<open>decodeURIComponent\<close>: \<open>None\<close> for the \<^verbatim>\<open>URIError\<close> it throws on a malformed escape
  or on escapes that are not the UTF-8 encoding of a character.
\<close>

definition decodeURIComponent :: "string \<Rightarrow> string option" where
  "decodeURIComponent s =
     (case percent_decode s of
        None \<Rightarrow> None
      | Some t \<Rightarrow> if utf8_valid t then Some t else None)"

section \<open>The platform around the handler\<close>

text \<open>
  The fields of a parsed \<^verbatim>\<open>URL\<close> object the worker reads. The parser itself belongs to
  the platform: the handler takes it as \<open>parse_URL\<close>, with \<open>None\<close> where
  \<^verbatim>\<open>new URL(s)\<close> throws.
\<close>

record URL =
  hostname :: string
  port :: string
  pathname :: string
  origin :: string

text \<open>
  A \<^verbatim>\<open>Headers\<close> object: the name-value pairs in order, names in lower case.
\<close>

type_synonym Headers = "(string \<times> string) list"

definition Headers_new :: "(string \<times> string) list \<Rightarrow> Headers" where
  "Headers_new init = map (\<lambda>(n, v). (lower n, v)) init"

text \<open>The values stored under a name, and \<^verbatim>\<open>get\<close>, which joins them.\<close>

definition header_values :: "Headers \<Rightarrow> string \<Rightarrow> string list" where
  "header_values h k = map snd (filter (\<lambda>(n, v). n = k) h)"

definition Headers_get :: "Headers \<Rightarrow> string \<Rightarrow> string option" where
  "Headers_get h name =
     (case header_values h (lower name) of
        [] \<Rightarrow> None
      | vs \<Rightarrow> Some (str_join vs '', ''))"

fun set_first :: "string \<Rightarrow> string \<Rightarrow> Headers \<Rightarrow> Headers" where
  "set_first k v [] = []"
| "set_first k v ((n, x) # h) =
     (if n = k then (k, v) # filter (\<lambda>(n', x'). n' \<noteq> k) h else (n, x) # set_first k v h)"

definition Headers_set :: "Headers \<Rightarrow> string \<Rightarrow> string \<Rightarrow> Headers" where
  "Headers_set h name v =
     (if lower name \<in> fst ` set h then set_first (lower name) v h else h @ [(lower name, v)])"

definition Headers_delete :: "Headers \<Rightarrow> string \<Rightarrow> Headers" where
  "Headers_delete h name = filter (\<lambda>(n, v). n \<noteq> lower name) h"

text \<open>What the \<^verbatim>\<open>try\<close> block can throw; the handler reports \<^verbatim>\<open>error.message\<close>.\<close>

datatype exn =
    Invalid_URL string
  | Fetch_failed string
  | Body_failed string
  | Status_out_of_range int
  | Null_body_status int

text \<open>
  A response body: none, a text, the JSON text \<^verbatim>\<open>{"error": message}\<close> of an
  exception, or an upstream stream handed on as it is.
\<close>

datatype 'b BodyInit = Null | Text string | Json_error exn | Stream 'b

record 'b Response =
  status :: int
  headers :: Headers
  body :: "'b BodyInit"

text \<open>
  \<^verbatim>\<open>new Response(body, {status, headers})\<close>: a \<^verbatim>\<open>RangeError\<close> for a status outside
  200 to 599, a \<^verbatim>\<open>TypeError\<close> for a body with a null-body status; a text body without
  a content type gets \<^verbatim>\<open>text/plain;charset=UTF-8\<close>.
\<close>

definition default_content_type :: "'b BodyInit \<Rightarrow> Headers \<Rightarrow> Headers" where
  "default_content_type b h =
     (if (case b of Text t \<Rightarrow> True | Json_error e \<Rightarrow> True | _ \<Rightarrow> False)
         \<and> Headers_get h ''content-type'' = None
      then h @ [(''content-type'', ''text/plain;charset=UTF-8'')]
      else h)"

definition Response_new :: "'b BodyInit \<Rightarrow> int \<Rightarrow> Headers \<Rightarrow> exn + 'b Response" where
  "Response_new b st h =
     (if st < 200 \<or> 599 < st then Inl (Status_out_of_range st)
      else if b \<noteq> Null \<and> st \<in> {101, 103, 204, 205, 304} then Inl (Null_body_status st)
      else Inr \<lparr>status = st, headers = default_content_type b h, body = b\<rparr>)"

text \<open>\<^verbatim>\<open>res.ok\<close> of a platform response: the status is 200 to 299.\<close>

definition Response_ok :: "int \<Rightarrow> bool" where
  "Response_ok st = (200 \<le> st \<and> st \<le> 299)"

datatype transport = NATIVE | RAW_SOCKET

text \<open>The request that leaves the worker: which client sends it, the URL, the header map.\<close>

record upstream_request =
  via :: transport
  target :: string
  headersMap :: "(string \<times> string) list"

text \<open>What either client returns: status, headers and the body stream (none for a null body).\<close>

record 'b upstream_result =
  res_status :: int
  res_headers :: Headers
  res_body :: "'b option"

text \<open>The object \<^verbatim>\<open>response\<close> the handler builds from it.\<close>

record 'b response =
  up_status :: int
  up_headers :: Headers
  up_ok :: bool
  up_body :: "'b option"

text \<open>
  The platform: the URL parser, the two HTTP clients (\<^verbatim>\<open>fetch\<close> and \<^verbatim>\<open>socketFetch\<close>
  over \<^verbatim>\<open>cloudflare:sockets\<close>; \<open>Inl\<close> when the call throws) and the reading of a
  body stream into text (\<open>Inl\<close> when the stream errors).
\<close>

record 'b platform =
  parse_URL :: "string \<Rightarrow> URL option"
  upstream_fetch :: "upstream_request \<Rightarrow> exn + 'b upstream_result"
  read_text :: "'b \<Rightarrow> exn + string"

text \<open>
  The inbound request, as the handler reads it: the method, the query parameters
  \<^verbatim>\<open>url\<close> and \<^verbatim>\<open>referer\<close> (\<open>None\<close> for \<^verbatim>\<open>null\<close>), the headers \<^verbatim>\<open>Range\<close> and
  \<^verbatim>\<open>X-Requested-With\<close>, and the origin and path of its own URL.
\<close>

record Request =
  req_method :: string
  url_param :: "string option"
  referer_param :: "string option"
  range_header :: "string option"
  x_requested_with :: "string option"
  worker_origin :: string
  worker_pathname :: string

section \<open>The \<^verbatim>\<open>fetch\<close> handler\<close>

subsection \<open>The referer and the upstream request\<close>

definition lowerHex :: "char \<Rightarrow> bool" where
  "lowerHex c = (let n = (of_char c :: nat) in (97 \<le> n \<and> n \<le> 102) \<or> (48 \<le> n \<and> n \<le> 57))"

text \<open>
  \<^verbatim>\<open>urlPath.match(/\/([a-f0-9]{64,})\//)\<close>: the group of the leftmost match, a run of
  at least 64 lower-case hexadecimal digits between two slashes.
\<close>

fun videoIdMatch :: "string \<Rightarrow> string option" where
  "videoIdMatch [] = None"
| "videoIdMatch (c # cs) =
     (if c = CHR ''/'' \<and> 64 \<le> length (takeWhile lowerHex cs)
         \<and> take 1 (dropWhile lowerHex cs) = ''/''
      then Some (takeWhile lowerHex cs)
      else videoIdMatch cs)"

text \<open>Lines 172 to 190: the value of \<^verbatim>\<open>targetReferer\<close> after the branches.\<close>

definition targetReferer :: "Request \<Rightarrow> URL \<Rightarrow> string" where
  "targetReferer req targetUrl =
     (let r0 = (case referer_param req of
                  None \<Rightarrow> ''https://megacloud.tv/''
                | Some r \<Rightarrow> if r = [] then ''https://megacloud.tv/'' else r)
      in if hostname targetUrl = ''cdn.dotstream.buzz'' then ''https://megaplay.buzz/''
         else if r0 = ''https://megacloud.tv'' \<or> r0 = ''https://megacloud.tv/'' then
           (case videoIdMatch (pathname targetUrl) of
              Some videoId \<Rightarrow> ''https://megacloud.tv/embed-2/e-1/'' @ videoId
            | None \<Rightarrow> ''https://megacloud.tv/embed-2/e-1/'')
         else r0)"

text \<open>Lines 194 to 213: the header map, in insertion order.\<close>

definition headersMap_of :: "Request \<Rightarrow> string \<Rightarrow> (string \<times> string) list" where
  "headersMap_of req referer =
     [(''User-Agent'', ''Mozilla/5.0 (Windows NT 10.0; Win64; x64) AppleWebKit/537.36 (KHTML, like Gecko) Chrome/131.0.0.0 Safari/537.36''),
      (''Accept'', ''*/*''),
      (''Accept-Language'', ''en-US,en;q=0.9''),
      (''Accept-Encoding'', ''identity''),
      (''Referer'', referer),
      (''Sec-Fetch-Dest'', ''empty''),
      (''Sec-Fetch-Mode'', ''cors''),
      (''Sec-Fetch-Site'', ''cross-site''),
      (''Sec-Ch-Ua'', [CHR 0x22] @ ''Google Chrome'' @ [CHR 0x22] @ '';v='' @ [CHR 0x22] @ ''131''
                       @ [CHR 0x22] @ '', '' @ [CHR 0x22] @ ''Chromium'' @ [CHR 0x22] @ '';v=''
                       @ [CHR 0x22] @ ''131'' @ [CHR 0x22] @ '', '' @ [CHR 0x22] @ ''Not_A Brand''
                       @ [CHR 0x22] @ '';v='' @ [CHR 0x22] @ ''24'' @ [CHR 0x22]),
      (''Sec-Ch-Ua-Mobile'', ''?0''),
      (''Sec-Ch-Ua-Platform'', [CHR 0x22] @ ''Windows'' @ [CHR 0x22])]
     @ (case range_header req of
          None \<Rightarrow> [] | Some v \<Rightarrow> if v = [] then [] else [(''Range'', v)])
     @ (case x_requested_with req of
          None \<Rightarrow> [] | Some v \<Rightarrow> if v = [] then [] else [(''X-Requested-With'', v)])"

text \<open>Lines 216 to 229.\<close>

definition isNonStandardPort :: "string \<Rightarrow> bool" where
  "isNonStandardPort url = str_includes url '':2228''"

definition needsSocketFetch :: "string \<Rightarrow> URL \<Rightarrow> bool" where
  "needsSocketFetch url targetUrl =
     (isNonStandardPort url \<or>
      str_includes (hostname targetUrl) ''haildrop'' \<or>
      str_includes (hostname targetUrl) ''douvid'' \<or>
      str_includes (hostname targetUrl) ''lightningspark'' \<or>
      str_includes (hostname targetUrl) ''sunburst'' \<or>
      str_includes (hostname targetUrl) ''sunshinerays'' \<or>
      str_includes (hostname targetUrl) ''rainveil'' \<or>
      str_includes (hostname targetUrl) ''fogtwist'' \<or>
      str_includes (hostname targetUrl) ''stormshade'' \<or>
      str_includes (hostname targetUrl) ''netmagcdn'')"

definition request_for :: "Request \<Rightarrow> string \<Rightarrow> URL \<Rightarrow> upstream_request" where
  "request_for req url targetUrl =
     \<lparr>via = (if needsSocketFetch url targetUrl then RAW_SOCKET else NATIVE),
      target = url,
      headersMap = headersMap_of req (targetReferer req targetUrl)\<rparr>"

subsection \<open>The manifest rewriter\<close>

definition basePath :: "string \<Rightarrow> string" where
  "basePath url = take (case lastIndexOf url CHR ''/'' of None \<Rightarrow> 0 | Some i \<Rightarrow> i + 1) url"

definition workerUrl :: "Request \<Rightarrow> string" where
  "workerUrl req = worker_origin req @ worker_pathname req"

text \<open>The value of \<^verbatim>\<open>fullUrl\<close> in \<^verbatim>\<open>proxyLine\<close>; \<open>targetUrl\<close> is \<^verbatim>\<open>new URL(url)\<close>.\<close>

definition fullUrl :: "string \<Rightarrow> URL \<Rightarrow> string \<Rightarrow> string" where
  "fullUrl url targetUrl line =
     (if \<not> startsWith line ''http'' then
        (if startsWith line ''/'' then origin targetUrl @ line else basePath url @ line)
      else line)"

definition proxyLine :: "Request \<Rightarrow> string \<Rightarrow> URL \<Rightarrow> string \<Rightarrow> string \<Rightarrow> string" where
  "proxyLine req url targetUrl referer line =
     workerUrl req @ ''?url='' @ encodeURIComponent (fullUrl url targetUrl line)
       @ ''&referer='' @ encodeURIComponent referer"

definition isQuote :: "char \<Rightarrow> bool" where
  "isQuote c = (c = CHR 0x22 \<or> c = CHR 0x27)"

text \<open>
  \<^verbatim>\<open>/URI=["']([^"']+)["']/\<close> matched at the head of a string: the group and what follows
  the match.
\<close>

definition match_URI :: "string \<Rightarrow> (string \<times> string) option" where
  "match_URI s =
     (if prefix ''URI='' s \<and> list_all isQuote (take 1 (drop 4 s)) \<and> drop 4 s \<noteq> [] then
        (let uri = takeWhile (\<lambda>c. \<not> isQuote c) (drop 5 s);
             rest = dropWhile (\<lambda>c. \<not> isQuote c) (drop 5 s)
         in if uri \<noteq> [] \<and> rest \<noteq> [] then Some (uri, drop 1 rest) else None)
      else None)"

text \<open>\<^verbatim>\<open>trimmedLine.replace(regex, ...)\<close>: the leftmost match is replaced, once.\<close>

fun replace_URI :: "(string \<Rightarrow> string) \<Rightarrow> string \<Rightarrow> string" where
  "replace_URI f [] = []"
| "replace_URI f (c # cs) =
     (case match_URI (c # cs) of
        Some (uri, rest) \<Rightarrow> ''URI='' @ [CHR 0x22] @ f uri @ [CHR 0x22] @ rest
      | None \<Rightarrow> c # replace_URI f cs)"

text \<open>The function mapped over the lines of the manifest.\<close>

definition rewrite_line :: "(string \<Rightarrow> string) \<Rightarrow> string \<Rightarrow> string" where
  "rewrite_line f line =
     (let trimmedLine = trim line
      in if trimmedLine = [] then line
         else if startsWith trimmedLine ''#'' then replace_URI f trimmedLine
         else f trimmedLine)"

definition rewrite_manifest :: "(string \<Rightarrow> string) \<Rightarrow> string \<Rightarrow> string" where
  "rewrite_manifest f manifestText =
     str_join (map (rewrite_line f) (str_split manifestText CHR 0x0A)) [CHR 0x0A]"

subsection \<open>The response pipeline\<close>

text \<open>Lines 253 to 255: the copy of the upstream headers, with the two headers set.\<close>

definition outbound_headers :: "Headers \<Rightarrow> Headers" where
  "outbound_headers h =
     Headers_set (Headers_set (Headers_new h) ''Access-Control-Allow-Origin'' ''*'')
       ''X-Proxy-Version'' ''1.2.1-no-origin''"

text \<open>Lines 264 and 265.\<close>

definition without_embedding_headers :: "Headers \<Rightarrow> Headers" where
  "without_embedding_headers h =
     Headers_delete (Headers_delete h ''Content-Security-Policy'') ''X-Frame-Options''"

text \<open>Lines 267 and 270: the test that sends a response to the rewriter.\<close>

definition is_manifest :: "Headers \<Rightarrow> string \<Rightarrow> bool" where
  "is_manifest responseHeaders url =
     (let contentType = (case Headers_get responseHeaders ''content-type'' of
                           None \<Rightarrow> [] | Some v \<Rightarrow> v)
      in str_includes contentType ''mpegurl'' \<or> str_includes url ''.m3u8'')"

text \<open>\<^verbatim>\<open>await new Response(response.body).text()\<close>; a null body reads as the empty text.\<close>

definition body_text :: "'b platform \<Rightarrow> 'b option \<Rightarrow> exn + string" where
  "body_text env b = (case b of None \<Rightarrow> Inr [] | Some s \<Rightarrow> read_text env s)"

text \<open>Lines 253 to 310, from the object \<^verbatim>\<open>response\<close> to the value returned.\<close>

definition respond ::
  "'b platform \<Rightarrow> Request \<Rightarrow> string \<Rightarrow> URL \<Rightarrow> string \<Rightarrow> 'b response \<Rightarrow> exn + 'b Response" where
  "respond env req url targetUrl referer r =
     (let responseHeaders = outbound_headers (up_headers r)
      in if \<not> up_ok r \<and> up_status r \<noteq> 206 then
           Response_new (Text (''Upstream error '' @ Number_toString (up_status r)))
             (up_status r) responseHeaders
         else
           (let responseHeaders = without_embedding_headers responseHeaders
            in if is_manifest responseHeaders url then
                 (case body_text env (up_body r) of
                    Inl e \<Rightarrow> Inl e
                  | Inr manifestText \<Rightarrow>
                      Response_new
                        (Text (rewrite_manifest (proxyLine req url targetUrl referer) manifestText))
                        (up_status r) responseHeaders)
               else
                 Response_new (case up_body r of None \<Rightarrow> Null | Some b \<Rightarrow> Stream b)
                   (up_status r) responseHeaders))"

text \<open>The body of the \<^verbatim>\<open>try\<close> block, lines 171 to 310; \<open>Inl\<close> is what \<^verbatim>\<open>catch\<close> receives.\<close>

definition try_block :: "'b platform \<Rightarrow> Request \<Rightarrow> string \<Rightarrow> exn + 'b Response" where
  "try_block env req url =
     (case parse_URL env url of
        None \<Rightarrow> Inl (Invalid_URL url)
      | Some targetUrl \<Rightarrow>
          (case parse_URL env (targetReferer req targetUrl) of
             None \<Rightarrow> Inl (Invalid_URL (targetReferer req targetUrl))
           | Some targetOrigin \<Rightarrow>
               (case upstream_fetch env (request_for req url targetUrl) of
                  Inl e \<Rightarrow> Inl e
                | Inr res \<Rightarrow>
                    respond env req url targetUrl (targetReferer req targetUrl)
                      \<lparr>up_status = res_status res,
                       up_headers = res_headers res,
                       up_ok = (if needsSocketFetch url targetUrl
                                then (200 \<le> res_status res \<and> res_status res < 300)
                                     \<or> res_status res = 206
                                else Response_ok (res_status res)),
                       up_body = res_body res\<rparr>)))"

text \<open>
  The responses the handler builds itself; for each of them \<^verbatim>\<open>new Response\<close> succeeds.
\<close>

definition preflight :: "'b Response" where
  "preflight =
     \<lparr>status = 204,
      headers = default_content_type (Null :: 'b BodyInit) (Headers_new
        [(''Access-Control-Allow-Origin'', ''*''),
         (''Access-Control-Allow-Methods'', ''GET, OPTIONS''),
         (''Access-Control-Allow-Headers'', ''Range, Content-Type, Accept, Accept-Encoding''),
         (''Access-Control-Expose-Headers'', ''Content-Length, Content-Range, Accept-Ranges, Cache-Control''),
         (''Access-Control-Max-Age'', ''86400'')]),
      body = Null\<rparr>"

definition url_required :: "'b Response" where
  "url_required =
     \<lparr>status = 400,
      headers = default_content_type (Text ''URL parameter is required'' :: 'b BodyInit)
                  (Headers_new [(''Access-Control-Allow-Origin'', ''*'')]),
      body = Text ''URL parameter is required''\<rparr>"

definition internal_error :: "exn \<Rightarrow> 'b Response" where
  "internal_error e =
     \<lparr>status = 500,
      headers = default_content_type (Json_error e :: 'b BodyInit)
                  (Headers_new [(''Content-Type'', ''application/json''),
                                (''Access-Control-Allow-Origin'', ''*'')]),
      body = Json_error e\<rparr>"

text \<open>The handler, lines 144 to 318 (named after the method it implements).\<close>

definition fetch :: "'b platform \<Rightarrow> Request \<Rightarrow> 'b Response" where
  "fetch env req =
     (if req_method req = ''OPTIONS'' then preflight
      else (case url_param req of
              None \<Rightarrow> url_required
            | Some url \<Rightarrow>
                if url = [] then url_required
                else (case try_block env req url of
                        Inr resp \<Rightarrow> resp
                      | Inl e \<Rightarrow> internal_error e)))"

section \<open>Notions of the specification\<close>

text \<open>
  The fixed list of CDN host names of the transport selector, as the specification calls
  the chain of tests at lines 221 to 229.
\<close>

definition socket_hosts :: "string list" where
  "socket_hosts = [''haildrop'', ''douvid'', ''lightningspark'', ''sunburst'', ''sunshinerays'',
                   ''rainveil'', ''fogtwist'', ''stormshade'', ''netmagcdn'']"

text \<open>
  An absolute URI, as the specification's words have it: it starts with a scheme (a letter,
  then letters, digits, \<^verbatim>\<open>+\<close>, \<^verbatim>\<open>-\<close> or \<^verbatim>\<open>.\<close>) and a colon.
\<close>

definition absolute_URI :: "string \<Rightarrow> bool" where
  "absolute_URI s =
     (let scheme = takeWhile (\<lambda>c. c \<noteq> CHR '':'') s
      in scheme \<noteq> [] \<and> length scheme < length s
         \<and> list_all (\<lambda>c. (65 \<le> (of_char c :: nat) \<and> (of_char c :: nat) \<le> 90)
                         \<or> (97 \<le> (of_char c :: nat) \<and> (of_char c :: nat) \<le> 122)) (take 1 scheme)
         \<and> list_all (\<lambda>c. (65 \<le> (of_char c :: nat) \<and> (of_char c :: nat) \<le> 90)
                         \<or> (97 \<le> (of_char c :: nat) \<and> (of_char c :: nat) \<le> 122)
                         \<or> (48 \<le> (of_char c :: nat) \<and> (of_char c :: nat) \<le> 57)
                         \<or> c \<in> set ''+-.'') scheme)"

text \<open>
  The raw value of a query parameter of a URL: of the text after the first \<^verbatim>\<open>?\<close>, cut
  at every \<^verbatim>\<open>&\<close>, the first piece \<^verbatim>\<open>name=value\<close> with that name gives the value.
\<close>

definition query_param :: "string \<Rightarrow> string \<Rightarrow> string option" where
  "query_param u name =
     map_of (map (\<lambda>kv. (takeWhile (\<lambda>c. c \<noteq> CHR ''='') kv,
                         drop 1 (dropWhile (\<lambda>c. c \<noteq> CHR ''='') kv)))
               (str_split (drop 1 (dropWhile (\<lambda>c. c \<noteq> CHR ''?'') u)) CHR ''&''))
       name"

text \<open>
  A text that parses as hexadecimal, as the claim's words have it: one hexadecimal digit or
  more, and nothing else.
\<close>

definition hexadecimal_text :: "string \<Rightarrow> bool" where
  "hexadecimal_text s = (s \<noteq> [] \<and> list_all (\<lambda>c. hexDigit c \<noteq> None) s)"

text \<open>
  The chunked transfer encoding of a list of payloads, as the glossary has it: for every
  payload its size in hexadecimal, CRLF, the payload, CRLF; then the zero-size chunk and
  an empty line.
\<close>

function to_hex :: "nat \<Rightarrow> string" where
  "to_hex n = (if n < 16 then [hexChar n] else to_hex (n div 16) @ [hexChar (n mod 16)])"
  by pat_completeness auto
termination
  by (relation "measure id") auto

declare to_hex.simps [simp del]

definition chunk_of :: "byte list \<Rightarrow> byte list" where
  "chunk_of payload = bytes_of (to_hex (length payload)) @ [13, 10] @ payload @ [13, 10]"

definition chunked_encoding :: "byte list list \<Rightarrow> byte list" where
  "chunked_encoding payloads = concat (map chunk_of payloads) @ bytes_of ''0'' @ [13, 10, 13, 10]"

text \<open>The number a string of hexadecimal digits denotes.\<close>

definition hex_value :: "string \<Rightarrow> nat" where
  "hex_value s = foldl (\<lambda>a c. 16 * a + the (hexDigit c)) 0 s"

section \<open>Example inputs\<close>

text \<open>The chunked encoding of the payloads \<^verbatim>\<open>abc\<close> and \<^verbatim>\<open>de\<close>, whole and cut into two buffers.\<close>

definition abc_de_chunked :: "byte list" where
  "abc_de_chunked = chunked_encoding [bytes_of ''abc'', bytes_of ''de'']"

text \<open>
  A platform for the examples: a URL parser that knows the URLs the examples use (with the
  fields \<^verbatim>\<open>new URL\<close> gives them), an upstream that answers every request with the given
  status and headers and the one-line body \<^verbatim>\<open>1.ts\<close>, and bodies that are their own text.
\<close>

definition example_URLs :: "(string \<times> URL) list" where
  "example_URLs =
     [(''https://cdn.example/show/index.m3u8'',
       \<lparr>hostname = ''cdn.example'', port = [], pathname = ''/show/index.m3u8'',
        origin = ''https://cdn.example''\<rparr>),
      (''https://cdn.example/show/index.m3u8?t=1'',
       \<lparr>hostname = ''cdn.example'', port = [], pathname = ''/show/index.m3u8'',
        origin = ''https://cdn.example''\<rparr>),
      (''https://cdn.example/seg/7.ts'',
       \<lparr>hostname = ''cdn.example'', port = [], pathname = ''/seg/7.ts'',
        origin = ''https://cdn.example''\<rparr>),
      (''https://cdn.example/seg/7.ts?t=:2228'',
       \<lparr>hostname = ''cdn.example'', port = [], pathname = ''/seg/7.ts'',
        origin = ''https://cdn.example''\<rparr>),
      (''https://cdn.dotstream.buzz/v/master.m3u8'',
       \<lparr>hostname = ''cdn.dotstream.buzz'', port = [], pathname = ''/v/master.m3u8'',
        origin = ''https://cdn.dotstream.buzz''\<rparr>),
      (''https://megaplay.buzz/'',
       \<lparr>hostname = ''megaplay.buzz'', port = [], pathname = ''/'',
        origin = ''https://megaplay.buzz''\<rparr>),
      (''https://megacloud.tv/embed-2/e-1/'',
       \<lparr>hostname = ''megacloud.tv'', port = [], pathname = ''/embed-2/e-1/'',
        origin = ''https://megacloud.tv''\<rparr>)]"

definition example_platform :: "int \<Rightarrow> Headers \<Rightarrow> string platform" where
  "example_platform st hs =
     \<lparr>parse_URL = map_of example_URLs,
      upstream_fetch = (\<lambda>rq. Inr \<lparr>res_status = st, res_headers = hs, res_body = Some ''1.ts''\<rparr>),
      read_text = Inr\<rparr>"

definition example_request :: "string option \<Rightarrow> string option \<Rightarrow> Request" where
  "example_request url referer =
     \<lparr>req_method = ''GET'', url_param = url, referer_param = referer,
      range_header = None, x_requested_with = None,
      worker_origin = ''https://proxy.example'', worker_pathname = ''/''\<rparr>"

section \<open>Properties of the chunked decoder\<close>

lemma indexOf_append_first:
  "v \<notin> set xs \<Longrightarrow> indexOf (xs @ v # ys) v = Some (length xs)"
  by (induction xs) auto

lemma indexOf_SomeD:
  "indexOf xs v = Some i \<Longrightarrow> i < length xs \<and> xs ! i = v \<and> v \<notin> set (take i xs)"
proof (induction xs arbitrary: i)
  case Nil
  then show ?case by simp
next
  case (Cons x xs)
  show ?case
  proof (cases "x = v")
    case True
    with Cons.prems show ?thesis by simp
  next
    case False
    with Cons.prems obtain j where j: "indexOf xs v = Some j" and i: "i = Suc j"
      by auto
    from Cons.IH [OF j] i False show ?thesis by simp
  qed
qed

lemma slice_prefix: "slice (xs @ ys) 0 (int (length xs)) = xs"
  by (simp add: slice_def relIndex_def)

lemma slice_from_append: "slice_from (xs @ ys) (int (length xs)) = ys"
  by (simp add: slice_from_def relIndex_def)

lemma slice_from_skip2: "slice_from (xs @ a # b # ys) (int (length xs) + 2) = ys"
proof -
  have "slice_from ((xs @ [a, b]) @ ys) (int (length (xs @ [a, b]))) = ys"
    by (rule slice_from_append)
  then show ?thesis by (simp add: add.commute)
qed

lemma transform_loop_empty: "buffer d = [] \<Longrightarrow> transform_loop d = ([], d)"
  by (simp add: transform_loop.simps)

lemma footer_silent:
  "state d = FOOTER \<Longrightarrow> fst (transform_loop d) = [] \<and> state (snd (transform_loop d)) = FOOTER"
proof (induction d rule: transform_loop.induct)
  case (1 d)
  show ?case
  proof (cases "buffer d = []")
    case True
    with "1.prems" show ?thesis by (simp add: transform_loop_empty)
  next
    case False
    show ?thesis
    proof (cases "indexOf (buffer d) 13")
      case None
      with False "1.prems" show ?thesis
        by (simp add: transform_loop.simps [of d] loop_body_def)
    next
      case (Some lineEnd)
      define d' where "d' = (if lineEnd = 0 then d\<lparr>buffer := []\<rparr>
                             else d\<lparr>buffer := slice_from (buffer d) (int lineEnd + 2)\<rparr>)"
      have lb: "loop_body d = Continue [] d'"
        using Some "1.prems" by (simp add: loop_body_def d'_def Let_def)
      have st: "state d' = FOOTER" using "1.prems" by (simp add: d'_def)
      have ih: "fst (transform_loop d') = [] \<and> state (snd (transform_loop d')) = FOOTER"
        using "1.IH" [of "[]" d'] False lb st by simp
      have "transform_loop d = (case transform_loop d' of (es', d'') \<Rightarrow> ([] @ es', d''))"
        using False lb by (simp add: transform_loop.simps [of d])
      with ih show ?thesis by (simp add: case_prod_beta)
    qed
  qed
qed

lemma footer_pipeThrough: "state d = FOOTER \<Longrightarrow> pipeThrough d chunks = []"
proof (induction chunks arbitrary: d)
  case Nil
  then show ?case by simp
next
  case (Cons chunk chunks)
  let ?d1 = "d\<lparr>buffer := merge (buffer d) chunk\<rparr>"
  have s1: "state ?d1 = FOOTER" using Cons.prems by simp
  from footer_silent [OF s1]
  have f: "fst (transform d chunk) = []" and s: "state (snd (transform d chunk)) = FOOTER"
    by (simp_all add: transform_def)
  from Cons.IH [OF s] f show ?case
    by (simp add: case_prod_beta errored_def)
qed

lemma loop_body_Continue_quiet: "loop_body d = Continue es d' \<Longrightarrow> \<not> errored es"
  by (cases "state d")
     (auto simp: loop_body_def Let_def errored_def split: option.splits if_splits)

lemma errored_append: "errored (xs @ ys) = (errored xs \<or> errored ys)"
  by (simp add: errored_def list_ex_iff) blast

lemma error_only_last_append:
  "\<not> errored xs \<Longrightarrow> error_only_last ys \<Longrightarrow> error_only_last (xs @ ys)"
  by (cases "ys = []")
     (auto simp: error_only_last_def butlast_append errored_append errored_def list_ex_iff
           dest: in_set_butlastD)

lemma error_only_lastD:
  assumes "error_only_last es" and "es = pre @ Error m # post"
  shows "post = []"
proof (rule ccontr)
  assume "post \<noteq> []"
  then have "butlast es = pre @ Error m # butlast post"
    using assms(2) by (simp add: butlast_append)
  then have "errored (butlast es)"
    by (simp add: errored_def)
  with assms(1) show False by (simp add: error_only_last_def)
qed

lemma transform_loop_error_only_last: "error_only_last (fst (transform_loop d))"
proof (induction d rule: transform_loop.induct)
  case (1 d)
  show ?case
  proof (cases "buffer d = []")
    case True
    then show ?thesis by (simp add: transform_loop_empty error_only_last_def errored_def)
  next
    case False
    show ?thesis
    proof (cases "loop_body d")
      case Break
      with False show ?thesis
        by (simp add: transform_loop.simps [of d] error_only_last_def errored_def)
    next
      case (Return e d')
      with False show ?thesis
        by (simp add: transform_loop.simps [of d] error_only_last_def errored_def)
    next
      case (Continue es d')
      have ih: "error_only_last (fst (transform_loop d'))"
        using "1.IH" [of es d'] False Continue by simp
      have "fst (transform_loop d) = es @ fst (transform_loop d')"
        using False Continue by (simp add: transform_loop.simps [of d] case_prod_beta)
      with ih loop_body_Continue_quiet [OF Continue] show ?thesis
        by (simp add: error_only_last_append)
    qed
  qed
qed

lemma pipeThrough_error_only_last: "error_only_last (pipeThrough d chunks)"
proof (induction chunks arbitrary: d)
  case Nil
  then show ?case by (simp add: error_only_last_def errored_def)
next
  case (Cons chunk chunks)
  show ?case
  proof (cases "errored (fst (transform d chunk))")
    case True
    then have "pipeThrough d (chunk # chunks) = fst (transform d chunk)"
      by (simp add: case_prod_beta)
    then show ?thesis
      using transform_loop_error_only_last by (simp add: transform_def)
  next
    case False
    then have "pipeThrough d (chunk # chunks)
               = fst (transform d chunk) @ pipeThrough (snd (transform d chunk)) chunks"
      by (simp add: case_prod_beta)
    with False Cons.IH show ?thesis by (simp add: error_only_last_append)
  qed
qed

lemma size_parse_failure:
  assumes "state d = SIZE"
    and "indexOf (buffer d) 13 = Some lineEnd"
    and "parseInt16 (TextDecoder_decode (slice (buffer d) 0 (int lineEnd))) = None"
  shows "transform_loop d =
           ([Error (''Invalid chunk size: '' @ TextDecoder_decode (slice (buffer d) 0 (int lineEnd)))],
            d\<lparr>chunkSize := None, buffer := slice_from (buffer d) (int lineEnd + 2)\<rparr>)"
proof -
  from assms(2) have "buffer d \<noteq> []" by auto
  moreover have "loop_body d =
      Return (Error (''Invalid chunk size: '' @ TextDecoder_decode (slice (buffer d) 0 (int lineEnd))))
        (d\<lparr>chunkSize := None, buffer := slice_from (buffer d) (int lineEnd + 2)\<rparr>)"
    using assms by (simp add: loop_body_def Let_def isNaN_def)
  ultimately show ?thesis by (simp add: transform_loop.simps [of d])
qed

text \<open>
  Claim C6, as the code has it. When the decoder is in the SIZE state and the text before
  the first CR of its buffer makes \<^verbatim>\<open>parseInt(text, 16)\<close> give \<^verbatim>\<open>NaN\<close> (after leading
  white space, a sign and a prefix \<^verbatim>\<open>0x\<close>, if any, no hexadecimal digit follows), the call
  of \<^verbatim>\<open>transform\<close> enqueues nothing and signals the error \<^verbatim>\<open>Invalid chunk size: \<close>
  followed by that text, and the stream delivers nothing more, whatever buffers are
  written after it. In every run of the stream an error is the last event: nothing is
  enqueued after it.
\<close>

theorem decode_error_terminates_stream:
  assumes "state d = SIZE"
    and "indexOf (merge (buffer d) chunk) 13 = Some lineEnd"
    and "parseInt16 (TextDecoder_decode (slice (merge (buffer d) chunk) 0 (int lineEnd))) = None"
  shows "pipeThrough d (chunk # chunks) =
           [Error (''Invalid chunk size: '' @
                   TextDecoder_decode (slice (merge (buffer d) chunk) 0 (int lineEnd)))]
         \<and> (\<forall>d0 cs pre m post. pipeThrough d0 cs = pre @ Error m # post \<longrightarrow> post = [])"
proof
  let ?d = "d\<lparr>buffer := merge (buffer d) chunk\<rparr>"
  have "transform_loop ?d =
           ([Error (''Invalid chunk size: '' @ TextDecoder_decode (slice (buffer ?d) 0 (int lineEnd)))],
            ?d\<lparr>chunkSize := None, buffer := slice_from (buffer ?d) (int lineEnd + 2)\<rparr>)"
    using assms by (intro size_parse_failure) simp_all
  then show "pipeThrough d (chunk # chunks) =
           [Error (''Invalid chunk size: '' @
                   TextDecoder_decode (slice (merge (buffer d) chunk) 0 (int lineEnd)))]"
    by (simp add: transform_def errored_def)
next
  show "\<forall>d0 cs pre m post. pipeThrough d0 cs = pre @ Error m # post \<longrightarrow> post = []"
    using pipeThrough_error_only_last error_only_lastD by blast
qed

theorem decode_error_terminates_stream_witness:
  "state DechunkingStream_new = SIZE
   \<and> indexOf (merge (buffer DechunkingStream_new) (bytes_of ''zz'' @ [13, 10])) 13 = Some 2
   \<and> parseInt16 (TextDecoder_decode
        (slice (merge (buffer DechunkingStream_new) (bytes_of ''zz'' @ [13, 10])) 0 (int 2))) = None
   \<and> pipeThrough DechunkingStream_new
        [bytes_of ''zz'' @ [13, 10], bytes_of ''3'' @ [13, 10] @ bytes_of ''abc'' @ [13, 10]]
      = [Error ''Invalid chunk size: zz'']"
proof -
  have a: "state DechunkingStream_new = SIZE" by (simp add: DechunkingStream_new_def)
  have b: "indexOf (merge (buffer DechunkingStream_new) (bytes_of ''zz'' @ [13, 10])) 13 = Some 2"
    by code_simp
  have c: "parseInt16 (TextDecoder_decode
        (slice (merge (buffer DechunkingStream_new) (bytes_of ''zz'' @ [13, 10])) 0 (int 2))) = None"
    by code_simp
  have d: "TextDecoder_decode
        (slice (merge (buffer DechunkingStream_new) (bytes_of ''zz'' @ [13, 10])) 0 (int 2)) = ''zz''"
    by code_simp
  from decode_error_terminates_stream [OF a b c,
      of "[bytes_of ''3'' @ [13, 10] @ bytes_of ''abc'' @ [13, 10]]"] a b c d
  show ?thesis by simp
qed

text \<open>
  Where claim C6 fails as stated: the size lines \<^verbatim>\<open>3g\<close> and \<^verbatim>\<open>-1\<close> are not
  hexadecimal, and no error is signalled. \<^verbatim>\<open>parseInt\<close> reads \<^verbatim>\<open>3g\<close> as 3, and the
  payload \<^verbatim>\<open>abc\<close> is enqueued as if the line were well-formed; it reads \<^verbatim>\<open>-1\<close> as
  minus one, and \<^verbatim>\<open>slice(0, -1)\<close> enqueues \<^verbatim>\<open>abc\<close> and the CR after it.
\<close>

theorem decode_error_terminates_stream_counterexample:
  "\<not> hexadecimal_text ''3g''
   \<and> pipeThrough DechunkingStream_new
        [bytes_of ''3g'' @ [13, 10] @ bytes_of ''abc'' @ [13, 10] @ bytes_of ''0'' @ [13, 10, 13, 10]]
       = [Enqueue (bytes_of ''abc'')]
   \<and> \<not> hexadecimal_text ''-1''
   \<and> pipeThrough DechunkingStream_new [bytes_of ''-1'' @ [13, 10] @ bytes_of ''abc'' @ [13, 10]]
       = [Enqueue (bytes_of ''abc'' @ [13])]"
  by code_simp

lemma zero_chunk_then_blank_line:
  assumes "state d = SIZE"
    and "buffer d = line @ [13, 10, 13] @ rest"
    and "13 \<notin> set line"
    and "parseInt16 (TextDecoder_decode line) = Some 0"
  shows "transform_loop d = ([], d\<lparr>chunkSize := Some 0, buffer := [], state := FOOTER\<rparr>)"
proof -
  let ?d1 = "d\<lparr>chunkSize := Some 0, buffer := 13 # rest, state := FOOTER\<rparr>"
  let ?d2 = "d\<lparr>chunkSize := Some 0, buffer := [], state := FOOTER\<rparr>"
  have ne: "buffer d \<noteq> []" using assms(2) by simp
  have ix: "indexOf (buffer d) 13 = Some (length line)"
    using assms(2,3) by (simp add: indexOf_append_first)
  have sl: "slice (buffer d) 0 (int (length line)) = line"
    using assms(2) by (simp add: slice_prefix)
  have sf: "slice_from (buffer d) (int (length line) + 2) = 13 # rest"
    using assms(2) slice_from_skip2 [of line 13 10 "13 # rest"] by simp
  have "loop_body d = Continue [] ?d1"
    using assms(1,4) ix sl sf by (simp add: loop_body_def Let_def isNaN_def)
  with ne have 1: "transform_loop d = transform_loop ?d1"
    by (simp add: transform_loop.simps [of d] case_prod_beta)
  have "loop_body ?d1 = Continue [] ?d2"
    by (simp add: loop_body_def Let_def)
  then have 2: "transform_loop ?d1 = transform_loop ?d2"
    by (simp add: transform_loop.simps [of ?d1] case_prod_beta)
  have 3: "transform_loop ?d2 = ([], ?d2)"
    by (simp add: transform_loop_empty)
  from 1 2 3 show ?thesis by simp
qed

lemma zero_size_line:
  assumes "state d = SIZE"
    and "buffer d = line @ 13 # following"
    and "13 \<notin> set line"
    and "parseInt16 (TextDecoder_decode line) = Some 0"
  shows "transform_loop d =
           transform_loop (d\<lparr>chunkSize := Some 0,
                              buffer := slice_from (buffer d) (int (length line) + 2),
                              state := FOOTER\<rparr>)"
proof -
  have ne: "buffer d \<noteq> []" using assms(2) by simp
  have ix: "indexOf (buffer d) 13 = Some (length line)"
    using assms(2,3) by (simp add: indexOf_append_first)
  have sl: "slice (buffer d) 0 (int (length line)) = line"
    using assms(2) by (simp add: slice_prefix)
  have "loop_body d = Continue [] (d\<lparr>chunkSize := Some 0,
                              buffer := slice_from (buffer d) (int (length line) + 2),
                              state := FOOTER\<rparr>)"
    using assms(1,4) ix sl by (simp add: loop_body_def Let_def isNaN_def)
  with ne show ?thesis
    by (simp add: transform_loop.simps [of d] case_prod_beta)
qed

text \<open>
  Claim C7. When the decoder is in the SIZE state and the first line of its buffer parses
  to a chunk size of zero, that call of \<^verbatim>\<open>transform\<close> and every later one enqueue
  nothing and signal nothing, whatever bytes follow the line or are written afterwards:
  the output has ended. When the empty footer line follows the zero-size line at once in
  the same buffer, the call also drops every byte after it: the decoder is left in the
  FOOTER state with an empty buffer.
\<close>

theorem zero_size_chunk_ends_output:
  assumes "state d = SIZE"
    and "merge (buffer d) chunk = line @ 13 # following"
    and "13 \<notin> set line"
    and "parseInt16 (TextDecoder_decode line) = Some 0"
  shows "pipeThrough d (chunk # chunks) = []
         \<and> (following = 10 # 13 # rest \<longrightarrow>
              transform d chunk = ([], d\<lparr>chunkSize := Some 0, buffer := [], state := FOOTER\<rparr>))"
proof
  let ?d = "d\<lparr>buffer := merge (buffer d) chunk\<rparr>"
  let ?d1 = "?d\<lparr>chunkSize := Some 0,
                 buffer := slice_from (buffer ?d) (int (length line) + 2),
                 state := FOOTER\<rparr>"
  have "transform_loop ?d = transform_loop ?d1"
    using assms by (intro zero_size_line [where following = following]) simp_all
  then have t: "transform d chunk = transform_loop ?d1" by (simp add: transform_def)
  have quiet: "fst (transform_loop ?d1) = [] \<and> state (snd (transform_loop ?d1)) = FOOTER"
    by (rule footer_silent) simp
  then have "pipeThrough (snd (transform_loop ?d1)) chunks = []"
    by (intro footer_pipeThrough) simp
  with t quiet show "pipeThrough d (chunk # chunks) = []"
    by (simp add: case_prod_beta errored_def)
next
  show "following = 10 # 13 # rest \<longrightarrow>
          transform d chunk = ([], d\<lparr>chunkSize := Some 0, buffer := [], state := FOOTER\<rparr>)"
  proof
    assume m: "following = 10 # 13 # rest"
    let ?d = "d\<lparr>buffer := merge (buffer d) chunk\<rparr>"
    have "transform_loop ?d = ([], ?d\<lparr>chunkSize := Some 0, buffer := [], state := FOOTER\<rparr>)"
      using assms m
      by (intro zero_chunk_then_blank_line [where line = line and rest = rest]) simp_all
    then show "transform d chunk = ([], d\<lparr>chunkSize := Some 0, buffer := [], state := FOOTER\<rparr>)"
      by (simp add: transform_def)
  qed
qed

theorem zero_size_chunk_ends_output_witness:
  "state DechunkingStream_new = SIZE
   \<and> merge (buffer DechunkingStream_new)
        (bytes_of ''0'' @ [13, 10, 13, 10] @ bytes_of ''3'' @ [13, 10] @ bytes_of ''abc'')
       = bytes_of ''0'' @ 13 # 10 # 13 # ([10] @ bytes_of ''3'' @ [13, 10] @ bytes_of ''abc'')
   \<and> 13 \<notin> set (bytes_of ''0'')
   \<and> parseInt16 (TextDecoder_decode (bytes_of ''0'')) = Some 0
   \<and> pipeThrough DechunkingStream_new
        [bytes_of ''0'' @ [13, 10, 13, 10] @ bytes_of ''3'' @ [13, 10] @ bytes_of ''abc'',
         [13, 10] @ bytes_of ''2'' @ [13, 10] @ bytes_of ''de'' @ [13, 10]] = []
   \<and> transform DechunkingStream_new
        (bytes_of ''0'' @ [13, 10, 13, 10] @ bytes_of ''3'' @ [13, 10] @ bytes_of ''abc'')
       = ([], DechunkingStream_new\<lparr>chunkSize := Some 0, buffer := [], state := FOOTER\<rparr>)"
proof -
  have a: "state DechunkingStream_new = SIZE" by (simp add: DechunkingStream_new_def)
  have b: "merge (buffer DechunkingStream_new)
        (bytes_of ''0'' @ [13, 10, 13, 10] @ bytes_of ''3'' @ [13, 10] @ bytes_of ''abc'')
       = bytes_of ''0'' @ 13 # 10 # 13 # ([10] @ bytes_of ''3'' @ [13, 10] @ bytes_of ''abc'')"
    by (simp add: DechunkingStream_new_def merge_def)
  have c: "13 \<notin> set (bytes_of ''0'')" by (simp add: bytes_of_def)
  have d: "parseInt16 (TextDecoder_decode (bytes_of ''0'')) = Some 0" by code_simp
  note t = zero_size_chunk_ends_output [OF a b c d,
      of "[[13, 10] @ bytes_of ''2'' @ [13, 10] @ bytes_of ''de'' @ [13, 10]]"
         "[10] @ bytes_of ''3'' @ [13, 10] @ bytes_of ''abc''"]
  from t have e: "pipeThrough DechunkingStream_new
        [bytes_of ''0'' @ [13, 10, 13, 10] @ bytes_of ''3'' @ [13, 10] @ bytes_of ''abc'',
         [13, 10] @ bytes_of ''2'' @ [13, 10] @ bytes_of ''de'' @ [13, 10]] = []"
    by (rule conjunct1)
  from t have f: "transform DechunkingStream_new
        (bytes_of ''0'' @ [13, 10, 13, 10] @ bytes_of ''3'' @ [13, 10] @ bytes_of ''abc'')
       = ([], DechunkingStream_new\<lparr>chunkSize := Some 0, buffer := [], state := FOOTER\<rparr>)"
    by simp
  from a b c d e f show ?thesis by (intro conjI)
qed

text \<open>
  Claim C3 (the code departs from it). In the DATA state with a chunk size of 3 and exactly
  the three payload bytes buffered, fewer than chunkSize + 2, \<^verbatim>\<open>transform\<close> does not wait
  for the trailing CRLF: it enqueues the payload at once and goes back to the SIZE state
  with an empty buffer, because line 38 compares the buffer length with \<^verbatim>\<open>chunkSize\<close>
  while line 41 consumes \<^verbatim>\<open>chunkSize + 2\<close> bytes. The CRLF that arrives in the next
  buffer is then read as an empty size line, and the stream is errored.
\<close>

theorem data_state_emits_before_trailing_CRLF:
  "transform \<lparr>buffer = [], state = DATA, chunkSize = Some 3\<rparr> (bytes_of ''abc'')
     = ([Enqueue (bytes_of ''abc'')], \<lparr>buffer = [], state = SIZE, chunkSize = Some 3\<rparr>)
   \<and> pipeThrough \<lparr>buffer = [], state = DATA, chunkSize = Some 3\<rparr>
         [bytes_of ''abc'', [13, 10] @ bytes_of ''0'' @ [13, 10, 13, 10]]
       = [Enqueue (bytes_of ''abc''), Error ''Invalid chunk size: '']"
  by code_simp

text \<open>
  Claim C1 (the code departs from it). The chunked encoding of the payloads \<^verbatim>\<open>abc\<close> and
  \<^verbatim>\<open>de\<close> decodes to \<^verbatim>\<open>abcde\<close> when it arrives in one buffer. Cut after the first
  payload, before its CRLF, the decoder enqueues \<^verbatim>\<open>abc\<close> and then takes the CRLF for an
  empty size line and signals an error: the output is \<^verbatim>\<open>abc\<close>. Cut between the CR and
  the LF of the first size line, it enqueues the LF and \<^verbatim>\<open>ab\<close> as the first payload: the
  output is a line feed and \<^verbatim>\<open>abde\<close>.
\<close>

theorem fragmentation_changes_output:
  "emitted (pipeThrough DechunkingStream_new [abc_de_chunked]) = bytes_of ''abcde''
   \<and> take 6 abc_de_chunked @ drop 6 abc_de_chunked = abc_de_chunked
   \<and> pipeThrough DechunkingStream_new [take 6 abc_de_chunked, drop 6 abc_de_chunked]
       = [Enqueue (bytes_of ''abc''), Error ''Invalid chunk size: '']
   \<and> emitted (pipeThrough DechunkingStream_new [take 6 abc_de_chunked, drop 6 abc_de_chunked])
       = bytes_of ''abc''
   \<and> take 2 abc_de_chunked @ drop 2 abc_de_chunked = abc_de_chunked
   \<and> pipeThrough DechunkingStream_new [take 2 abc_de_chunked, drop 2 abc_de_chunked]
       = [Enqueue ([10] @ bytes_of ''ab''), Enqueue (bytes_of ''de'')]
   \<and> emitted (pipeThrough DechunkingStream_new [take 2 abc_de_chunked, drop 2 abc_de_chunked])
       = [10] @ bytes_of ''abde''"
  by code_simp

section \<open>Properties of the handler's headers\<close>

lemma header_values_set_first_same:
  "k \<in> fst ` set h \<Longrightarrow> header_values (set_first k v h) k = [v]"
proof (induction h)
  case Nil
  then show ?case by simp
next
  case (Cons p h)
  obtain n x where p: "p = (n, x)" by (cases p)
  show ?case
  proof (cases "n = k")
    case True
    have "filter (\<lambda>(n, v). n = k) (filter (\<lambda>(n', x'). n' \<noteq> k) h) = []"
      by (induction h) auto
    with True p show ?thesis by (simp add: header_values_def)
  next
    case False
    with Cons p show ?thesis by (auto simp: header_values_def)
  qed
qed

lemma header_values_filter_other:
  "k' \<noteq> k \<Longrightarrow> header_values (filter (\<lambda>(n, x). n \<noteq> k) h) k' = header_values h k'"
  by (induction h) (auto simp: header_values_def)

lemma header_values_filter_same: "header_values (filter (\<lambda>(n, x). n \<noteq> k) h) k = []"
  by (induction h) (auto simp: header_values_def)

lemma header_values_set_first_other:
  "k' \<noteq> k \<Longrightarrow> header_values (set_first k v h) k' = header_values h k'"
proof (induction h)
  case Nil
  then show ?case by simp
next
  case (Cons p h)
  obtain n x where p: "p = (n, x)" by (cases p)
  show ?case
  proof (cases "n = k")
    case True
    with Cons.prems p header_values_filter_other [of k' k h] show ?thesis
      by (simp add: header_values_def)
  next
    case False
    with Cons p show ?thesis by (simp add: header_values_def)
  qed
qed

lemma header_values_absent: "k \<notin> fst ` set h \<Longrightarrow> header_values h k = []"
  by (induction h) (auto simp: header_values_def)

lemma header_values_append: "header_values (h @ g) k = header_values h k @ header_values g k"
  by (simp add: header_values_def)

lemma Headers_get_set_same: "Headers_get (Headers_set h n v) n = Some v"
  by (simp add: Headers_get_def Headers_set_def header_values_set_first_same
        header_values_append header_values_absent)
     (simp add: header_values_def)

lemma Headers_get_set_other:
  "lower m \<noteq> lower n \<Longrightarrow> Headers_get (Headers_set h n v) m = Headers_get h m"
  by (simp add: Headers_get_def Headers_set_def header_values_set_first_other
        header_values_append)
     (simp add: header_values_def)

lemma Headers_get_delete_same: "Headers_get (Headers_delete h n) n = None"
  by (simp add: Headers_get_def Headers_delete_def header_values_filter_same)

lemma Headers_get_delete_other:
  "lower m \<noteq> lower n \<Longrightarrow> Headers_get (Headers_delete h n) m = Headers_get h m"
  by (simp add: Headers_get_def Headers_delete_def header_values_filter_other)

lemma Headers_get_append_other:
  "lower m \<noteq> k \<Longrightarrow> Headers_get (h @ [(k, v)]) m = Headers_get h m"
  by (simp add: Headers_get_def header_values_append) (simp add: header_values_def)

lemma Headers_get_default_content_type:
  "lower m \<noteq> ''content-type'' \<Longrightarrow> Headers_get (default_content_type b h) m = Headers_get h m"
  by (simp add: default_content_type_def Headers_get_append_other)

lemma Response_new_Inr:
  assumes "Response_new b st h = Inr r"
  shows "r = \<lparr>status = st, headers = default_content_type b h, body = b\<rparr>"
  using assms by (simp add: Response_new_def split: if_splits)

lemma lower_names:
  "lower ''Access-Control-Allow-Origin'' = ''access-control-allow-origin''"
  "lower ''X-Proxy-Version'' = ''x-proxy-version''"
  "lower ''Content-Security-Policy'' = ''content-security-policy''"
  "lower ''X-Frame-Options'' = ''x-frame-options''"
  "lower ''content-type'' = ''content-type''"
  "lower ''Content-Type'' = ''content-type''"
  by code_simp+

lemma name_distinct:
  "lower ''X-Proxy-Version'' \<noteq> lower ''Access-Control-Allow-Origin''"
  "lower ''Access-Control-Allow-Origin'' \<noteq> lower ''X-Proxy-Version''"
  "lower ''Access-Control-Allow-Origin'' \<noteq> lower ''Content-Security-Policy''"
  "lower ''Access-Control-Allow-Origin'' \<noteq> lower ''X-Frame-Options''"
  "lower ''X-Proxy-Version'' \<noteq> lower ''Content-Security-Policy''"
  "lower ''X-Proxy-Version'' \<noteq> lower ''X-Frame-Options''"
  "lower ''Content-Security-Policy'' \<noteq> lower ''X-Frame-Options''"
  "lower ''X-Frame-Options'' \<noteq> lower ''Content-Security-Policy''"
  "lower ''Access-Control-Allow-Origin'' \<noteq> ''content-type''"
  "lower ''X-Proxy-Version'' \<noteq> ''content-type''"
  "lower ''Content-Security-Policy'' \<noteq> ''content-type''"
  "lower ''X-Frame-Options'' \<noteq> ''content-type''"
  by (simp_all add: lower_names)

lemma outbound_headers_get:
  "Headers_get (outbound_headers h) ''Access-Control-Allow-Origin'' = Some ''*''"
  "Headers_get (outbound_headers h) ''X-Proxy-Version'' = Some ''1.2.1-no-origin''"
  by (simp_all add: outbound_headers_def Headers_get_set_same Headers_get_set_other name_distinct)

lemma without_embedding_headers_get:
  "Headers_get (without_embedding_headers h) ''Content-Security-Policy'' = None"
  "Headers_get (without_embedding_headers h) ''X-Frame-Options'' = None"
  "Headers_get (without_embedding_headers h) ''Access-Control-Allow-Origin''
     = Headers_get h ''Access-Control-Allow-Origin''"
  "Headers_get (without_embedding_headers h) ''X-Proxy-Version'' = Headers_get h ''X-Proxy-Version''"
  by (simp_all add: without_embedding_headers_def Headers_get_delete_same
        Headers_get_delete_other name_distinct)

lemma respond_upstream_error:
  "\<not> up_ok r \<Longrightarrow> up_status r \<noteq> 206 \<Longrightarrow>
   respond env req url tu ref r =
     Response_new (Text (''Upstream error '' @ Number_toString (up_status r)))
       (up_status r) (outbound_headers (up_headers r))"
  by (simp add: respond_def)

lemma respond_manifest:
  "up_ok r \<or> up_status r = 206 \<Longrightarrow>
   is_manifest (without_embedding_headers (outbound_headers (up_headers r))) url \<Longrightarrow>
   respond env req url tu ref r =
     (case body_text env (up_body r) of
        Inl e \<Rightarrow> Inl e
      | Inr manifestText \<Rightarrow>
          Response_new (Text (rewrite_manifest (proxyLine req url tu ref) manifestText))
            (up_status r) (without_embedding_headers (outbound_headers (up_headers r))))"
  by (auto simp: respond_def Let_def)

lemma respond_stream:
  "up_ok r \<or> up_status r = 206 \<Longrightarrow>
   \<not> is_manifest (without_embedding_headers (outbound_headers (up_headers r))) url \<Longrightarrow>
   respond env req url tu ref r =
     Response_new (case up_body r of None \<Rightarrow> Null | Some b \<Rightarrow> Stream b)
       (up_status r) (without_embedding_headers (outbound_headers (up_headers r)))"
  by (auto simp: respond_def Let_def)

lemma respond_Inr:
  assumes "respond env req url tu ref r = Inr resp"
  shows "\<exists>b. resp = \<lparr>status = up_status r,
                      headers = default_content_type b
                        (if \<not> up_ok r \<and> up_status r \<noteq> 206 then outbound_headers (up_headers r)
                         else without_embedding_headers (outbound_headers (up_headers r))),
                      body = b\<rparr>"
proof (cases "\<not> up_ok r \<and> up_status r \<noteq> 206")
  case True
  with assms have "Response_new (Text (''Upstream error '' @ Number_toString (up_status r)))
             (up_status r) (outbound_headers (up_headers r)) = Inr resp"
    by (simp add: respond_upstream_error)
  from Response_new_Inr [OF this] True show ?thesis by auto
next
  case False
  then have ok: "up_ok r \<or> up_status r = 206" by auto
  let ?h = "without_embedding_headers (outbound_headers (up_headers r))"
  show ?thesis
  proof (cases "is_manifest ?h url")
    case True
    from assms obtain manifestText where
      "Response_new (Text (rewrite_manifest (proxyLine req url tu ref) manifestText))
         (up_status r) ?h = Inr resp"
      unfolding respond_manifest [OF ok True]
      by (cases "body_text env (up_body r)") simp_all
    from Response_new_Inr [OF this] False show ?thesis by auto
  next
    case nm: False
    from assms have
      "Response_new (case up_body r of None \<Rightarrow> Null | Some b \<Rightarrow> Stream b) (up_status r) ?h = Inr resp"
      unfolding respond_stream [OF ok nm] .
    from Response_new_Inr [OF this] False show ?thesis by auto
  qed
qed

lemma respond_headers:
  assumes "respond env req url tu ref r = Inr resp"
  shows "Headers_get (headers resp) ''Access-Control-Allow-Origin'' = Some ''*''"
    and "Headers_get (headers resp) ''X-Proxy-Version'' = Some ''1.2.1-no-origin''"
    and "up_ok r \<or> up_status r = 206 \<Longrightarrow>
           Headers_get (headers resp) ''Content-Security-Policy'' = None
           \<and> Headers_get (headers resp) ''X-Frame-Options'' = None"
proof -
  from respond_Inr [OF assms] obtain b where
    resp: "resp = \<lparr>status = up_status r,
                      headers = default_content_type b
                        (if \<not> up_ok r \<and> up_status r \<noteq> 206 then outbound_headers (up_headers r)
                         else without_embedding_headers (outbound_headers (up_headers r))),
                      body = b\<rparr>" ..
  show "Headers_get (headers resp) ''Access-Control-Allow-Origin'' = Some ''*''"
    by (simp add: resp Headers_get_default_content_type name_distinct
          outbound_headers_get without_embedding_headers_get)
  show "Headers_get (headers resp) ''X-Proxy-Version'' = Some ''1.2.1-no-origin''"
    by (simp add: resp Headers_get_default_content_type name_distinct
          outbound_headers_get without_embedding_headers_get)
  show "Headers_get (headers resp) ''Content-Security-Policy'' = None
           \<and> Headers_get (headers resp) ''X-Frame-Options'' = None"
    if "up_ok r \<or> up_status r = 206"
    using that
    by (auto simp: resp Headers_get_default_content_type name_distinct
          without_embedding_headers_get)
qed

lemma respond_status: "respond env req url tu ref r = Inr resp \<Longrightarrow> status resp = up_status r"
  by (drule respond_Inr) auto

lemma lower_names2:
  "lower ''Access-Control-Allow-Methods'' = ''access-control-allow-methods''"
  "lower ''Access-Control-Allow-Headers'' = ''access-control-allow-headers''"
  "lower ''Access-Control-Expose-Headers'' = ''access-control-expose-headers''"
  "lower ''Access-Control-Max-Age'' = ''access-control-max-age''"
  by code_simp+

lemma Headers_get_literal:
  "Headers_get [] name = None"
  "Headers_get ((n, v) # h) name =
     (if n = lower name
      then Some (str_join (v # header_values h (lower name)) '', '')
      else Headers_get h name)"
  by (simp_all add: Headers_get_def header_values_def)

lemma header_values_literal:
  "header_values [] k = []"
  "header_values ((n, v) # h) k = (if n = k then v # header_values h k else header_values h k)"
  by (simp_all add: header_values_def)

lemma preflight_headers:
  "headers (preflight :: 'b Response) =
     [(''access-control-allow-origin'', ''*''),
      (''access-control-allow-methods'', ''GET, OPTIONS''),
      (''access-control-allow-headers'', ''Range, Content-Type, Accept, Accept-Encoding''),
      (''access-control-expose-headers'', ''Content-Length, Content-Range, Accept-Ranges, Cache-Control''),
      (''access-control-max-age'', ''86400'')]"
  by (simp add: preflight_def default_content_type_def Headers_new_def lower_names lower_names2)

lemma url_required_headers:
  "headers (url_required :: 'b Response) =
     [(''access-control-allow-origin'', ''*''), (''content-type'', ''text/plain;charset=UTF-8'')]"
  by (simp add: url_required_def default_content_type_def Headers_new_def lower_names
        Headers_get_literal)

lemma internal_error_headers:
  "headers (internal_error e :: 'b Response) =
     [(''content-type'', ''application/json''), (''access-control-allow-origin'', ''*'')]"
  by (simp add: internal_error_def default_content_type_def Headers_new_def lower_names
        Headers_get_literal header_values_literal)

lemma own_responses:
  "Headers_get (headers (preflight :: 'b Response)) ''Access-Control-Allow-Origin'' = Some ''*''"
  "Headers_get (headers (url_required :: 'b Response)) ''Access-Control-Allow-Origin'' = Some ''*''"
  "Headers_get (headers (internal_error e :: 'b Response)) ''Access-Control-Allow-Origin'' = Some ''*''"
  "Headers_get (headers (preflight :: 'b Response)) ''X-Proxy-Version'' = None"
  "Headers_get (headers (url_required :: 'b Response)) ''X-Proxy-Version'' = None"
  "Headers_get (headers (internal_error e :: 'b Response)) ''X-Proxy-Version'' = None"
  "Headers_get (headers (preflight :: 'b Response)) ''Content-Security-Policy'' = None"
  "Headers_get (headers (url_required :: 'b Response)) ''Content-Security-Policy'' = None"
  "Headers_get (headers (internal_error e :: 'b Response)) ''Content-Security-Policy'' = None"
  "Headers_get (headers (preflight :: 'b Response)) ''X-Frame-Options'' = None"
  "Headers_get (headers (url_required :: 'b Response)) ''X-Frame-Options'' = None"
  "Headers_get (headers (internal_error e :: 'b Response)) ''X-Frame-Options'' = None"
  by (simp_all add: preflight_headers url_required_headers internal_error_headers
        Headers_get_literal header_values_literal lower_names)

lemma try_block_Inr:
  assumes "try_block env req url = Inr resp"
  shows "\<exists>tu r. respond env req url tu (targetReferer req tu) r = Inr resp
           \<and> (up_ok r \<or> up_status r = 206) = (200 \<le> up_status r \<and> up_status r < 300)"
proof -
  from assms obtain tu where tu: "parse_URL env url = Some tu"
    by (cases "parse_URL env url") (simp_all add: try_block_def)
  from assms tu obtain tor where tor: "parse_URL env (targetReferer req tu) = Some tor"
    by (cases "parse_URL env (targetReferer req tu)") (simp_all add: try_block_def)
  from assms tu tor obtain res where res: "upstream_fetch env (request_for req url tu) = Inr res"
    by (cases "upstream_fetch env (request_for req url tu)") (simp_all add: try_block_def)
  let ?r = "\<lparr>up_status = res_status res, up_headers = res_headers res,
             up_ok = (if needsSocketFetch url tu
                      then (200 \<le> res_status res \<and> res_status res < 300) \<or> res_status res = 206
                      else Response_ok (res_status res)),
             up_body = res_body res\<rparr>"
  from assms tu tor res have "respond env req url tu (targetReferer req tu) ?r = Inr resp"
    by (simp add: try_block_def)
  moreover have "(up_ok ?r \<or> up_status ?r = 206) = (200 \<le> up_status ?r \<and> up_status ?r < 300)"
    by (auto simp: Response_ok_def)
  ultimately show ?thesis by blast
qed

lemma fetch_cases:
  "fetch env req = preflight \<or> fetch env req = url_required
   \<or> (\<exists>e. fetch env req = internal_error e)
   \<or> (\<exists>url. try_block env req url = Inr (fetch env req))"
proof (cases "req_method req = ''OPTIONS''")
  case True
  then show ?thesis by (simp add: fetch_def)
next
  case notopt: False
  show ?thesis
  proof (cases "url_param req")
    case None
    with notopt show ?thesis by (simp add: fetch_def)
  next
    case (Some url)
    show ?thesis
    proof (cases "url = []")
      case True
      with notopt Some show ?thesis by (simp add: fetch_def)
    next
      case False
      show ?thesis
      proof (cases "try_block env req url")
        case (Inl e)
        with notopt Some False have "fetch env req = internal_error e" by (simp add: fetch_def)
        then show ?thesis by blast
      next
        case (Inr resp)
        with notopt Some False have "fetch env req = resp" by (simp add: fetch_def)
        with Inr show ?thesis by blast
      qed
    qed
  qed
qed

text \<open>
  Claim C2, as the code has it. Every response of the handler carries
  \<^verbatim>\<open>Access-Control-Allow-Origin: *\<close>. Every response with a status from 200 to 299 (the
  preflight answer and every proxied success) has neither a \<^verbatim>\<open>content-security-policy\<close>
  nor an \<^verbatim>\<open>x-frame-options\<close> header. Every response made from an upstream response
  (success or upstream-status error) carries \<^verbatim>\<open>X-Proxy-Version: 1.2.1-no-origin\<close>. The
  400 and 500 responses the handler builds itself carry no proxy-version header, and no
  \<^verbatim>\<open>content-security-policy\<close> or \<^verbatim>\<open>x-frame-options\<close> header either.
\<close>

theorem outbound_header_policy:
  "Headers_get (headers (fetch env req)) ''Access-Control-Allow-Origin'' = Some ''*''
   \<and> (200 \<le> status (fetch env req) \<and> status (fetch env req) < 300 \<longrightarrow>
        Headers_get (headers (fetch env req)) ''Content-Security-Policy'' = None
        \<and> Headers_get (headers (fetch env req)) ''X-Frame-Options'' = None)
   \<and> (try_block env req url = Inr resp \<longrightarrow>
        Headers_get (headers resp) ''X-Proxy-Version'' = Some ''1.2.1-no-origin'')
   \<and> Headers_get (headers (url_required :: 'b Response)) ''X-Proxy-Version'' = None
   \<and> Headers_get (headers (url_required :: 'b Response)) ''Content-Security-Policy'' = None
   \<and> Headers_get (headers (url_required :: 'b Response)) ''X-Frame-Options'' = None
   \<and> Headers_get (headers (internal_error e :: 'b Response)) ''X-Proxy-Version'' = None
   \<and> Headers_get (headers (internal_error e :: 'b Response)) ''Content-Security-Policy'' = None
   \<and> Headers_get (headers (internal_error e :: 'b Response)) ''X-Frame-Options'' = None"
proof -
  have version: "Headers_get (headers resp) ''X-Proxy-Version'' = Some ''1.2.1-no-origin''"
    if "try_block env req url = Inr resp"
    using try_block_Inr [OF that] respond_headers(2) by blast
  consider (options) "fetch env req = preflight"
    | (missing) "fetch env req = url_required"
    | (thrown) e' where "fetch env req = internal_error e'"
    | (proxied) url' where "try_block env req url' = Inr (fetch env req)"
    using fetch_cases [of env req] by blast
  then have "Headers_get (headers (fetch env req)) ''Access-Control-Allow-Origin'' = Some ''*''
     \<and> (200 \<le> status (fetch env req) \<and> status (fetch env req) < 300 \<longrightarrow>
        Headers_get (headers (fetch env req)) ''Content-Security-Policy'' = None
        \<and> Headers_get (headers (fetch env req)) ''X-Frame-Options'' = None)"
  proof cases
    case options
    then show ?thesis by (simp add: own_responses)
  next
    case missing
    then show ?thesis by (simp add: own_responses)
  next
    case thrown
    then show ?thesis by (simp add: own_responses)
  next
    case proxied
    from try_block_Inr [OF proxied] obtain tu r where
      r: "respond env req url' tu (targetReferer req tu) r = Inr (fetch env req)"
      and ok: "(up_ok r \<or> up_status r = 206) = (200 \<le> up_status r \<and> up_status r < 300)"
      by blast
    from respond_status [OF r] ok respond_headers(1) [OF r] respond_headers(3) [OF r]
    show ?thesis by auto
  qed
  with version show ?thesis by (simp add: own_responses)
qed

theorem outbound_header_policy_witness:
  "try_block
     (example_platform 200 [(''content-type'', ''video/mp2t''),
                            (''content-security-policy'', ''frame-ancestors none''),
                            (''x-frame-options'', ''DENY'')])
     (example_request (Some ''https://cdn.example/seg/7.ts'') None)
     ''https://cdn.example/seg/7.ts''
   = Inr (fetch (example_platform 200 [(''content-type'', ''video/mp2t''),
                            (''content-security-policy'', ''frame-ancestors none''),
                            (''x-frame-options'', ''DENY'')])
            (example_request (Some ''https://cdn.example/seg/7.ts'') None))
   \<and> 200 \<le> status (fetch (example_platform 200 [(''content-type'', ''video/mp2t''),
                            (''content-security-policy'', ''frame-ancestors none''),
                            (''x-frame-options'', ''DENY'')])
            (example_request (Some ''https://cdn.example/seg/7.ts'') None))
   \<and> status (fetch (example_platform 200 [(''content-type'', ''video/mp2t''),
                            (''content-security-policy'', ''frame-ancestors none''),
                            (''x-frame-options'', ''DENY'')])
            (example_request (Some ''https://cdn.example/seg/7.ts'') None)) < 300
   \<and> Headers_get (headers (fetch (example_platform 200 [(''content-type'', ''video/mp2t''),
                            (''content-security-policy'', ''frame-ancestors none''),
                            (''x-frame-options'', ''DENY'')])
            (example_request (Some ''https://cdn.example/seg/7.ts'') None)))
        ''Access-Control-Allow-Origin'' = Some ''*''
   \<and> Headers_get (headers (fetch (example_platform 200 [(''content-type'', ''video/mp2t''),
                            (''content-security-policy'', ''frame-ancestors none''),
                            (''x-frame-options'', ''DENY'')])
            (example_request (Some ''https://cdn.example/seg/7.ts'') None)))
        ''X-Proxy-Version'' = Some ''1.2.1-no-origin''
   \<and> Headers_get (headers (fetch (example_platform 200 [(''content-type'', ''video/mp2t''),
                            (''content-security-policy'', ''frame-ancestors none''),
                            (''x-frame-options'', ''DENY'')])
            (example_request (Some ''https://cdn.example/seg/7.ts'') None)))
        ''Content-Security-Policy'' = None
   \<and> Headers_get (headers (fetch (example_platform 200 [(''content-type'', ''video/mp2t''),
                            (''content-security-policy'', ''frame-ancestors none''),
                            (''x-frame-options'', ''DENY'')])
            (example_request (Some ''https://cdn.example/seg/7.ts'') None)))
        ''X-Frame-Options'' = None"
  (is "?a \<and> ?b \<and> ?c \<and> ?rest")
proof -
  have a: ?a by code_simp
  have b: ?b by code_simp
  have c: ?c by code_simp
  from outbound_header_policy [of
      "example_platform 200 [(''content-type'', ''video/mp2t''),
                            (''content-security-policy'', ''frame-ancestors none''),
                            (''x-frame-options'', ''DENY'')]"
      "example_request (Some ''https://cdn.example/seg/7.ts'') None"
      "''https://cdn.example/seg/7.ts''"
      "fetch (example_platform 200 [(''content-type'', ''video/mp2t''),
                            (''content-security-policy'', ''frame-ancestors none''),
                            (''x-frame-options'', ''DENY'')])
            (example_request (Some ''https://cdn.example/seg/7.ts'') None)"
      "Invalid_URL []"] a b c
  show ?thesis by blast
qed

text \<open>
  Where claim C2 fails as stated: the 400 response for a missing \<^verbatim>\<open>url\<close> parameter has no
  proxy-version header, and an upstream 404 that carries a \<^verbatim>\<open>content-security-policy\<close>
  header is answered with that header still in place.
\<close>

theorem outbound_header_policy_counterexample:
  "fetch (example_platform 200 []) (example_request None None) = url_required
   \<and> Headers_get (headers (fetch (example_platform 200 []) (example_request None None)))
        ''X-Proxy-Version'' = None
   \<and> status (fetch (example_platform 404 [(''content-security-policy'', ''frame-ancestors none'')])
               (example_request (Some ''https://cdn.example/seg/7.ts'') None)) = 404
   \<and> Headers_get (headers (fetch (example_platform 404 [(''content-security-policy'', ''frame-ancestors none'')])
               (example_request (Some ''https://cdn.example/seg/7.ts'') None)))
        ''Content-Security-Policy'' = Some ''frame-ancestors none''"
  by code_simp

section \<open>Properties of the transport selector and the manifest rewriter\<close>

lemma str_includes_iff: "str_includes s p = (\<exists>a b. s = a @ p @ b)"
proof (induction s)
  case Nil
  show ?case by auto
next
  case (Cons c cs)
  show ?case
  proof
    assume "str_includes (c # cs) p"
    then consider "prefix p (c # cs)" | "str_includes cs p" by auto
    then show "\<exists>a b. c # cs = a @ p @ b"
    proof cases
      case 1
      then obtain b where "c # cs = p @ b" by (auto simp: prefix_def)
      then have "c # cs = [] @ p @ b" by simp
      then show ?thesis by blast
    next
      case 2
      with Cons.IH obtain a b where "cs = a @ p @ b" by blast
      then have "c # cs = (c # a) @ p @ b" by simp
      then show ?thesis by blast
    qed
  next
    assume "\<exists>a b. c # cs = a @ p @ b"
    then obtain a b where ab: "c # cs = a @ p @ b" by blast
    show "str_includes (c # cs) p"
    proof (cases a)
      case Nil
      with ab have "prefix p (c # cs)" by (simp add: prefix_def)
      then show ?thesis by simp
    next
      case (Cons x a')
      with ab have "cs = a' @ p @ b" by simp
      with Cons.IH have "str_includes cs p" by blast
      then show ?thesis by simp
    qed
  qed
qed

text \<open>
  Claim C5, as the code has it. The raw-socket transport is selected if and only if the
  text \<^verbatim>\<open>:2228\<close> occurs somewhere in the target URL as it was given, or an entry of the
  fixed list occurs in the target's host name; every other target goes to the
  platform's own client.
\<close>

theorem raw_socket_selection:
  "(via (request_for req url targetUrl) = RAW_SOCKET)
     = ((\<exists>a b. url = a @ '':2228'' @ b)
        \<or> (\<exists>entry \<in> set socket_hosts. \<exists>a b. hostname targetUrl = a @ entry @ b))"
  by (simp add: request_for_def needsSocketFetch_def isNonStandardPort_def socket_hosts_def
        str_includes_iff)

text \<open>
  Where claim C5 fails as stated: the target \<^verbatim>\<open>https://cdn.example/seg/7.ts?t=:2228\<close> has
  no port and a host name outside the list, and is fetched over the raw socket, because
  \<^verbatim>\<open>:2228\<close> occurs in its query.
\<close>

theorem raw_socket_selection_counterexample:
  "map_of example_URLs ''https://cdn.example/seg/7.ts?t=:2228''
     = Some \<lparr>hostname = ''cdn.example'', port = [], pathname = ''/seg/7.ts'',
              origin = ''https://cdn.example''\<rparr>
   \<and> via (request_for (example_request (Some ''https://cdn.example/seg/7.ts?t=:2228'') None)
            ''https://cdn.example/seg/7.ts?t=:2228''
            \<lparr>hostname = ''cdn.example'', port = [], pathname = ''/seg/7.ts'',
             origin = ''https://cdn.example''\<rparr>) = RAW_SOCKET
   \<and> port \<lparr>hostname = ''cdn.example'', port = [], pathname = ''/seg/7.ts'',
             origin = ''https://cdn.example''\<rparr> \<noteq> ''2228''
   \<and> \<not> list_ex (str_includes ''cdn.example'') socket_hosts"
  by code_simp

lemma indexOf_None: "indexOf xs v = None \<Longrightarrow> v \<notin> set xs"
  by (induction xs) (auto split: if_splits)

lemma basePath_cut:
  "\<exists>rest. url = basePath url @ rest \<and> CHR ''/'' \<notin> set rest
          \<and> (basePath url = [] \<or> last (basePath url) = CHR ''/'')"
proof (cases "indexOf (rev url) CHR ''/''")
  case None
  then have "CHR ''/'' \<notin> set url" using indexOf_None [of "rev url"] by simp
  moreover from None have "basePath url = []" by (simp add: basePath_def lastIndexOf_def)
  ultimately show ?thesis by simp
next
  case (Some i)
  from indexOf_SomeD [OF Some] have i: "i < length url" and at: "rev url ! i = CHR ''/''"
    and no: "CHR ''/'' \<notin> set (take i (rev url))" by simp_all
  have "Suc (length url - Suc i) = length url - i" using i by arith
  then have bp: "basePath url = take (length url - i) url"
    using Some by (simp add: basePath_def lastIndexOf_def)
  have rest: "drop (length url - i) url = rev (take i (rev url))"
    by (simp add: take_rev)
  have ne: "take (length url - i) url \<noteq> []" using i by (cases url) auto
  have pos: "0 < length url - i" using i by simp
  have "last (take (length url - i) url)
          = take (length url - i) url ! (length (take (length url - i) url) - 1)"
    using ne by (rule last_conv_nth)
  also have "length (take (length url - i) url) = length url - i" by simp
  also have "take (length url - i) url ! (length url - i - 1) = url ! (length url - i - 1)"
    using pos by (intro nth_take) arith
  finally have "last (take (length url - i) url) = url ! (length url - i - 1)" .
  also have "\<dots> = rev url ! i" using i by (simp add: rev_nth)
  finally have l: "last (basePath url) = CHR ''/''" using at bp by simp
  have "url = basePath url @ drop (length url - i) url" by (simp add: bp)
  moreover have "CHR ''/'' \<notin> set (drop (length url - i) url)" using no rest by simp
  ultimately show ?thesis using l by blast
qed

text \<open>
  Claim C8, as the code has it. In \<^verbatim>\<open>proxyLine\<close> a URI that begins with \<^verbatim>\<open>http\<close> is used
  as it is; any other URI that begins with \<^verbatim>\<open>/\<close> resolves to the origin of the request
  URL followed by the URI; every other URI resolves to the base path followed by the URI,
  where the base path is the request URL cut after its last \<^verbatim>\<open>/\<close> (empty when it has
  none). A line that is neither blank nor a tag line is replaced by the proxied URL of its
  trimmed text resolved so.
\<close>

theorem manifest_URI_resolution:
  "(startsWith a ''http'' \<longrightarrow> fullUrl url targetUrl a = a)
   \<and> (\<not> startsWith b ''http'' \<and> startsWith b ''/'' \<longrightarrow>
        fullUrl url targetUrl b = origin targetUrl @ b)
   \<and> (\<not> startsWith c ''http'' \<and> \<not> startsWith c ''/'' \<longrightarrow>
        fullUrl url targetUrl c = basePath url @ c)
   \<and> (\<exists>rest. url = basePath url @ rest \<and> CHR ''/'' \<notin> set rest
         \<and> (basePath url = [] \<or> last (basePath url) = CHR ''/''))
   \<and> (trim line \<noteq> [] \<and> \<not> startsWith (trim line) ''#'' \<longrightarrow>
        rewrite_line (proxyLine req url targetUrl referer) line
          = workerUrl req @ ''?url='' @ encodeURIComponent (fullUrl url targetUrl (trim line))
            @ ''&referer='' @ encodeURIComponent referer)"
  using basePath_cut [of url]
  by (simp add: fullUrl_def rewrite_line_def proxyLine_def Let_def)

theorem manifest_URI_resolution_witness:
  "startsWith ''https://o.example/3.ts'' ''http''
   \<and> \<not> startsWith ''/seg/1.ts'' ''http'' \<and> startsWith ''/seg/1.ts'' ''/''
   \<and> \<not> startsWith ''1.ts'' ''http'' \<and> \<not> startsWith ''1.ts'' ''/''
   \<and> trim '' 1.ts '' \<noteq> [] \<and> \<not> startsWith (trim '' 1.ts '') ''#''
   \<and> fullUrl ''https://cdn.example/show/index.m3u8''
        \<lparr>hostname = ''cdn.example'', port = [], pathname = ''/show/index.m3u8'',
         origin = ''https://cdn.example''\<rparr> ''https://o.example/3.ts'' = ''https://o.example/3.ts''
   \<and> fullUrl ''https://cdn.example/show/index.m3u8''
        \<lparr>hostname = ''cdn.example'', port = [], pathname = ''/show/index.m3u8'',
         origin = ''https://cdn.example''\<rparr> ''/seg/1.ts'' = ''https://cdn.example/seg/1.ts''
   \<and> fullUrl ''https://cdn.example/show/index.m3u8''
        \<lparr>hostname = ''cdn.example'', port = [], pathname = ''/show/index.m3u8'',
         origin = ''https://cdn.example''\<rparr> ''1.ts'' = ''https://cdn.example/show/1.ts''
   \<and> rewrite_line (proxyLine (example_request (Some ''https://cdn.example/show/index.m3u8'') None)
                      ''https://cdn.example/show/index.m3u8''
                      \<lparr>hostname = ''cdn.example'', port = [], pathname = ''/show/index.m3u8'',
                       origin = ''https://cdn.example''\<rparr> ''https://megaplay.buzz/'') '' 1.ts ''
       = ''https://proxy.example/?url=https%3A%2F%2Fcdn.example%2Fshow%2F1.ts&referer=https%3A%2F%2Fmegaplay.buzz%2F''"
  (is "?h1 \<and> ?h2 \<and> ?h3 \<and> ?h4 \<and> ?h5 \<and> ?h6 \<and> ?h7 \<and> ?c1 \<and> ?c2 \<and> ?c3 \<and> ?c4")
proof -
  have h: ?h1 ?h2 ?h3 ?h4 ?h5 ?h6 ?h7 by code_simp+
  have e: "basePath ''https://cdn.example/show/index.m3u8'' = ''https://cdn.example/show/''"
    "workerUrl (example_request (Some ''https://cdn.example/show/index.m3u8'') None)
       = ''https://proxy.example/''"
    "trim '' 1.ts '' = ''1.ts''"
    "encodeURIComponent ''https://cdn.example/show/1.ts'' = ''https%3A%2F%2Fcdn.example%2Fshow%2F1.ts''"
    "encodeURIComponent ''https://megaplay.buzz/'' = ''https%3A%2F%2Fmegaplay.buzz%2F''"
    by code_simp+
  from manifest_URI_resolution [of "''https://o.example/3.ts''"
      "''https://cdn.example/show/index.m3u8''"
      "\<lparr>hostname = ''cdn.example'', port = [], pathname = ''/show/index.m3u8'',
        origin = ''https://cdn.example''\<rparr>"
      "''/seg/1.ts''" "''1.ts''" "'' 1.ts ''"
      "example_request (Some ''https://cdn.example/show/index.m3u8'') None"
      "''https://megaplay.buzz/''"] h e
  show ?thesis by simp
qed

text \<open>
  Where claim C8 fails as stated: \<^verbatim>\<open>skd://key-server/id\<close> is an absolute URI, and it is
  not used as it is but appended to the base path.
\<close>

theorem manifest_URI_resolution_counterexample:
  "absolute_URI ''skd://key-server/id''
   \<and> fullUrl ''https://cdn.example/show/index.m3u8''
        \<lparr>hostname = ''cdn.example'', port = [], pathname = ''/show/index.m3u8'',
         origin = ''https://cdn.example''\<rparr> ''skd://key-server/id''
       = ''https://cdn.example/show/skd://key-server/id''"
  by code_simp

section \<open>The round trip through a proxied URL\<close>

lemma hexDigit_hexChar: "k < 16 \<Longrightarrow> hexDigit (hexChar k) = Some k"
  by (simp add: hexDigit_def hexChar_def Let_def)

lemma char_of_hex_parts: "char_of (16 * ((of_char c :: nat) div 16) + (of_char c :: nat) mod 16) = c"
  by simp

lemma percent_not_unreserved: "\<not> uriUnreserved CHR ''%''"
  by code_simp

lemma percent_decode_encode: "percent_decode (encodeURIComponent s) = Some s"
proof (induction s)
  case Nil
  show ?case by (simp add: encodeURIComponent_def)
next
  case (Cons c s)
  have rest: "percent_decode (encodeURIComponent s) = Some s" by (rule Cons.IH)
  have split: "encodeURIComponent (c # s) =
      (if uriUnreserved c then [c]
       else [CHR ''%'', hexChar (of_char c div 16), hexChar (of_char c mod 16)])
      @ encodeURIComponent s"
    by (simp add: encodeURIComponent_def)
  show ?case
  proof (cases "uriUnreserved c")
    case True
    then have "c \<noteq> CHR ''%''" using percent_not_unreserved by auto
    with True rest split show ?thesis by simp
  next
    case False
    have hi: "hexDigit (hexChar ((of_char c :: nat) div 16)) = Some ((of_char c :: nat) div 16)"
      by (rule hexDigit_hexChar) (simp add: less_mult_imp_div_less)
    have lo: "hexDigit (hexChar ((of_char c :: nat) mod 16)) = Some ((of_char c :: nat) mod 16)"
      by (rule hexDigit_hexChar) simp
    from False rest split hi lo show ?thesis
      by (simp add: char_of_hex_parts)
  qed
qed

lemma decode_encode:
  "utf8_valid s \<Longrightarrow> decodeURIComponent (encodeURIComponent s) = Some s"
  by (simp add: decodeURIComponent_def percent_decode_encode)


lemma hexChar_not_separator:
  "k < 16 \<Longrightarrow> hexChar k \<noteq> CHR ''&''"
proof
  assume "k < 16" and "hexChar k = CHR ''&''"
  then have "hexDigit CHR ''&'' = Some k" using hexDigit_hexChar [of k] by simp
  moreover have "hexDigit CHR ''&'' = None" by code_simp
  ultimately show False by simp
qed

lemma ampersand_not_unreserved: "\<not> uriUnreserved CHR ''&''"
  by code_simp

lemma encodeURIComponent_no_ampersand: "CHR ''&'' \<notin> set (encodeURIComponent s)"
proof (induction s)
  case Nil
  show ?case by (simp add: encodeURIComponent_def)
next
  case (Cons c s)
  have split: "encodeURIComponent (c # s) =
      (if uriUnreserved c then [c]
       else [CHR ''%'', hexChar (of_char c div 16), hexChar (of_char c mod 16)])
      @ encodeURIComponent s"
    by (simp add: encodeURIComponent_def)
  have hi: "hexChar ((of_char c :: nat) div 16) \<noteq> CHR ''&''"
    by (rule hexChar_not_separator) (simp add: less_mult_imp_div_less)
  have lo: "hexChar ((of_char c :: nat) mod 16) \<noteq> CHR ''&''"
    by (rule hexChar_not_separator) simp
  show ?case
  proof (cases "uriUnreserved c")
    case True
    then have "c \<noteq> CHR ''&''" using ampersand_not_unreserved by auto
    with True Cons.IH split show ?thesis by auto
  next
    case False
    with Cons.IH split hi lo show ?thesis by auto
  qed
qed

lemma str_split_nonempty: "str_split s c \<noteq> []"
  by (induction s) (auto split: list.splits)

lemma str_split_first: "c \<notin> set a \<Longrightarrow> str_split (a @ c # b) c = a # str_split b c"
  by (induction a) auto

lemma query_param_url:
  assumes "CHR ''?'' \<notin> set w" and "CHR ''&'' \<notin> set e"
  shows "query_param (w @ ''?url='' @ e @ ''&referer='' @ r) ''url'' = Some e"
proof -
  have "dropWhile (\<lambda>c. c \<noteq> CHR ''?'') (w @ ''?url='' @ e @ ''&referer='' @ r)
          = ''?url='' @ e @ ''&referer='' @ r"
    using assms(1) by (auto simp: dropWhile_append3)
  then have q: "drop 1 (dropWhile (\<lambda>c. c \<noteq> CHR ''?'') (w @ ''?url='' @ e @ ''&referer='' @ r))
          = (''url='' @ e) @ CHR ''&'' # (''referer='' @ r)"
    by simp
  have "CHR ''&'' \<notin> set (''url='' @ e)" using assms(2) by simp
  then have "str_split ((''url='' @ e) @ CHR ''&'' # (''referer='' @ r)) CHR ''&''
          = (''url='' @ e) # str_split (''referer='' @ r) CHR ''&''"
    by (rule str_split_first)
  with q show ?thesis by (simp add: query_param_def)
qed

lemma http_line_not_tag:
  assumes "startsWith t ''http''"
  shows "t \<noteq> []" and "\<not> startsWith t ''#''"
  using assms by (auto simp: startsWith_def prefix_def)

text \<open>
  Claim C9, as the code has it. For every URI that begins with \<^verbatim>\<open>http\<close> (the rewriter's
  test for an absolute URI) and is well-formed text, the proxied URL that \<^verbatim>\<open>proxyLine\<close>
  builds has a \<^verbatim>\<open>url\<close> query parameter whose value decodes, by
  \<^verbatim>\<open>decodeURIComponent\<close>, to exactly that URI; and for every playlist line whose trimmed
  text is such a URI, the rewritten line is that proxied URL, so decoding its \<^verbatim>\<open>url\<close>
  parameter gives back the trimmed line. (The worker's own URL, origin and path, holds
  no \<^verbatim>\<open>?\<close>.)
\<close>

theorem http_URI_round_trip:
  "(startsWith uri ''http'' \<and> utf8_valid uri \<and> CHR ''?'' \<notin> set (workerUrl req) \<longrightarrow>
      Option.bind (query_param (proxyLine req url targetUrl referer uri) ''url'') decodeURIComponent
        = Some uri)
   \<and> (startsWith (trim line) ''http'' \<and> utf8_valid (trim line)
       \<and> CHR ''?'' \<notin> set (workerUrl req) \<longrightarrow>
      Option.bind (query_param (rewrite_line (proxyLine req url targetUrl referer) line) ''url'')
        decodeURIComponent = Some (trim line))"
proof -
  have core: "Option.bind (query_param (proxyLine req url targetUrl referer u) ''url'')
                decodeURIComponent = Some u"
    if "startsWith u ''http''" "utf8_valid u" "CHR ''?'' \<notin> set (workerUrl req)" for u
  proof -
    have "fullUrl url targetUrl u = u" using that(1) by (simp add: fullUrl_def)
    then have "proxyLine req url targetUrl referer u
        = workerUrl req @ ''?url='' @ encodeURIComponent u @ ''&referer=''
          @ encodeURIComponent referer"
      by (simp add: proxyLine_def)
    then have "query_param (proxyLine req url targetUrl referer u) ''url''
        = Some (encodeURIComponent u)"
      using query_param_url [OF that(3) encodeURIComponent_no_ampersand] by simp
    then show ?thesis using that(2) by (simp add: decode_encode)
  qed
  have line: "rewrite_line (proxyLine req url targetUrl referer) line
                = proxyLine req url targetUrl referer (trim line)"
    if "startsWith (trim line) ''http''"
    using http_line_not_tag [OF that] by (simp add: rewrite_line_def Let_def)
  from core line show ?thesis by simp
qed

theorem http_URI_round_trip_witness:
  "startsWith ''https://o.example/a b.ts?x=1&y=2'' ''http''
   \<and> utf8_valid ''https://o.example/a b.ts?x=1&y=2''
   \<and> CHR ''?'' \<notin> set (workerUrl (example_request (Some ''https://cdn.example/show/index.m3u8'') None))
   \<and> startsWith (trim ''  https://o.example/a b.ts?x=1&y=2 '') ''http''
   \<and> utf8_valid (trim ''  https://o.example/a b.ts?x=1&y=2 '')
   \<and> trim ''  https://o.example/a b.ts?x=1&y=2 '' = ''https://o.example/a b.ts?x=1&y=2''
   \<and> Option.bind
        (query_param
           (proxyLine (example_request (Some ''https://cdn.example/show/index.m3u8'') None)
              ''https://cdn.example/show/index.m3u8''
              \<lparr>hostname = ''cdn.example'', port = [], pathname = ''/show/index.m3u8'',
               origin = ''https://cdn.example''\<rparr>
              ''https://megaplay.buzz/'' ''https://o.example/a b.ts?x=1&y=2'') ''url'')
        decodeURIComponent = Some ''https://o.example/a b.ts?x=1&y=2''
   \<and> Option.bind
        (query_param
           (rewrite_line
              (proxyLine (example_request (Some ''https://cdn.example/show/index.m3u8'') None)
                 ''https://cdn.example/show/index.m3u8''
                 \<lparr>hostname = ''cdn.example'', port = [], pathname = ''/show/index.m3u8'',
                  origin = ''https://cdn.example''\<rparr>
                 ''https://megaplay.buzz/'') ''  https://o.example/a b.ts?x=1&y=2 '') ''url'')
        decodeURIComponent = Some ''https://o.example/a b.ts?x=1&y=2''"
  (is "?h1 \<and> ?h2 \<and> ?h3 \<and> ?h4 \<and> ?h5 \<and> ?h6 \<and> ?c1 \<and> ?c2")
proof -
  have h: ?h1 ?h2 ?h3 ?h4 ?h5 ?h6 by code_simp+
  from http_URI_round_trip [of "''https://o.example/a b.ts?x=1&y=2''"
      "example_request (Some ''https://cdn.example/show/index.m3u8'') None"
      "''https://cdn.example/show/index.m3u8''"
      "\<lparr>hostname = ''cdn.example'', port = [], pathname = ''/show/index.m3u8'',
        origin = ''https://cdn.example''\<rparr>"
      "''https://megaplay.buzz/''"
      "''  https://o.example/a b.ts?x=1&y=2 ''"] h
  show ?thesis by simp
qed

text \<open>
  Where claim C9 fails as stated: the line \<^verbatim>\<open>skd://key-server/id\<close> holds an absolute URI,
  and the \<^verbatim>\<open>url\<close> parameter of the rewritten line decodes to
  \<^verbatim>\<open>https://cdn.example/show/skd://key-server/id\<close>, not to the URI.
\<close>

theorem http_URI_round_trip_counterexample:
  "absolute_URI ''skd://key-server/id''
   \<and> Option.bind
        (query_param
           (rewrite_line
              (proxyLine (example_request (Some ''https://cdn.example/show/index.m3u8'') None)
                 ''https://cdn.example/show/index.m3u8''
                 \<lparr>hostname = ''cdn.example'', port = [], pathname = ''/show/index.m3u8'',
                  origin = ''https://cdn.example''\<rparr>
                 ''https://megaplay.buzz/'') ''skd://key-server/id'') ''url'')
        decodeURIComponent = Some ''https://cdn.example/show/skd://key-server/id''"
  by code_simp

section \<open>The referer policy and the choice between rewriting and streaming\<close>

lemma fetch_proxied:
  assumes "req_method req \<noteq> ''OPTIONS''"
    and "url_param req = Some url" and "url \<noteq> []"
    and "parse_URL env url = Some targetUrl"
    and "parse_URL env (targetReferer req targetUrl) = Some targetOrigin"
  shows "fetch env req =
           (case upstream_fetch env (request_for req url targetUrl) of
              Inl e \<Rightarrow> internal_error e
            | Inr res \<Rightarrow>
                (case respond env req url targetUrl (targetReferer req targetUrl)
                        \<lparr>up_status = res_status res,
                         up_headers = res_headers res,
                         up_ok = (if needsSocketFetch url targetUrl
                                  then (200 \<le> res_status res \<and> res_status res < 300)
                                       \<or> res_status res = 206
                                  else Response_ok (res_status res)),
                         up_body = res_body res\<rparr> of
                   Inl e \<Rightarrow> internal_error e
                 | Inr resp \<Rightarrow> resp))"
  using assms by (simp add: fetch_def try_block_def split: sum.splits)

lemma dotstream_targetReferer:
  "hostname targetUrl = ''cdn.dotstream.buzz'' \<Longrightarrow>
   targetReferer req targetUrl = ''https://megaplay.buzz/''"
  by (simp add: targetReferer_def Let_def)

lemma headersMap_of_Referer:
  "map snd (filter (\<lambda>(n, v). n = ''Referer'') (headersMap_of req r)) = [r]"
  by (simp add: headersMap_of_def split: option.splits)

lemma encoded_megaplay:
  "encodeURIComponent ''https://megaplay.buzz/'' = ''https%3A%2F%2Fmegaplay.buzz%2F''"
  by code_simp

text \<open>
  Claim C10. For every request other than a preflight whose \<^verbatim>\<open>url\<close> parameter parses to a
  URL with host name \<^verbatim>\<open>cdn.dotstream.buzz\<close>, whatever \<^verbatim>\<open>referer\<close> parameter it carries:
  the header map of the request sent upstream has exactly one \<^verbatim>\<open>Referer\<close> entry, and its
  value is \<^verbatim>\<open>https://megaplay.buzz/\<close>; the handler answers with what the response
  pipeline makes of the upstream's answer under that referer; and every proxied URL the
  rewriter builds under it ends with \<^verbatim>\<open>&referer=https%3A%2F%2Fmegaplay.buzz%2F\<close>.
\<close>

theorem dotstream_referer:
  assumes "req_method req \<noteq> ''OPTIONS''"
    and "url_param req = Some url" and "url \<noteq> []"
    and "parse_URL env url = Some targetUrl"
    and "hostname targetUrl = ''cdn.dotstream.buzz''"
    and "parse_URL env ''https://megaplay.buzz/'' = Some targetOrigin"
  shows "map snd (filter (\<lambda>(n, v). n = ''Referer'') (headersMap (request_for req url targetUrl)))
           = [''https://megaplay.buzz/'']
         \<and> fetch env req =
             (case upstream_fetch env (request_for req url targetUrl) of
                Inl e \<Rightarrow> internal_error e
              | Inr res \<Rightarrow>
                  (case respond env req url targetUrl ''https://megaplay.buzz/''
                          \<lparr>up_status = res_status res,
                           up_headers = res_headers res,
                           up_ok = (if needsSocketFetch url targetUrl
                                    then (200 \<le> res_status res \<and> res_status res < 300)
                                         \<or> res_status res = 206
                                    else Response_ok (res_status res)),
                           up_body = res_body res\<rparr> of
                     Inl e \<Rightarrow> internal_error e
                   | Inr resp \<Rightarrow> resp))
         \<and> proxyLine req url targetUrl ''https://megaplay.buzz/'' line
             = workerUrl req @ ''?url='' @ encodeURIComponent (fullUrl url targetUrl line)
               @ ''&referer=https%3A%2F%2Fmegaplay.buzz%2F''"
proof -
  have r: "targetReferer req targetUrl = ''https://megaplay.buzz/''"
    using assms(5) by (rule dotstream_targetReferer)
  have 1: "map snd (filter (\<lambda>(n, v). n = ''Referer'') (headersMap (request_for req url targetUrl)))
           = [''https://megaplay.buzz/'']"
    using headersMap_of_Referer [of req "''https://megaplay.buzz/''"]
    by (simp add: request_for_def r)
  have 2: "parse_URL env (targetReferer req targetUrl) = Some targetOrigin"
    using assms(6) by (simp add: r)
  note 3 = fetch_proxied [OF assms(1-4) 2, unfolded r]
  have 4: "proxyLine req url targetUrl ''https://megaplay.buzz/'' line
             = workerUrl req @ ''?url='' @ encodeURIComponent (fullUrl url targetUrl line)
               @ ''&referer=https%3A%2F%2Fmegaplay.buzz%2F''"
    by (simp add: proxyLine_def encoded_megaplay)
  from 1 3 4 show ?thesis by simp
qed


theorem dotstream_referer_witness:
  "req_method (example_request (Some ''https://cdn.dotstream.buzz/v/master.m3u8'')
                 (Some ''https://other.example/'')) \<noteq> ''OPTIONS''
   \<and> url_param (example_request (Some ''https://cdn.dotstream.buzz/v/master.m3u8'')
                 (Some ''https://other.example/''))
       = Some ''https://cdn.dotstream.buzz/v/master.m3u8''
   \<and> ''https://cdn.dotstream.buzz/v/master.m3u8'' \<noteq> []
   \<and> parse_URL (example_platform 200 [(''content-type'', ''application/vnd.apple.mpegurl'')])
         ''https://cdn.dotstream.buzz/v/master.m3u8''
       = Some \<lparr>hostname = ''cdn.dotstream.buzz'', port = [], pathname = ''/v/master.m3u8'',
                origin = ''https://cdn.dotstream.buzz''\<rparr>
   \<and> hostname \<lparr>hostname = ''cdn.dotstream.buzz'', port = [], pathname = ''/v/master.m3u8'',
                origin = ''https://cdn.dotstream.buzz''\<rparr> = ''cdn.dotstream.buzz''
   \<and> parse_URL (example_platform 200 [(''content-type'', ''application/vnd.apple.mpegurl'')])
         ''https://megaplay.buzz/''
       = Some \<lparr>hostname = ''megaplay.buzz'', port = [], pathname = ''/'',
                origin = ''https://megaplay.buzz''\<rparr>
   \<and> map snd (filter (\<lambda>(n, v). n = ''Referer'')
         (headersMap (request_for
            (example_request (Some ''https://cdn.dotstream.buzz/v/master.m3u8'')
               (Some ''https://other.example/''))
            ''https://cdn.dotstream.buzz/v/master.m3u8''
            \<lparr>hostname = ''cdn.dotstream.buzz'', port = [], pathname = ''/v/master.m3u8'',
             origin = ''https://cdn.dotstream.buzz''\<rparr>)))
       = [''https://megaplay.buzz/'']
   \<and> body (fetch (example_platform 200 [(''content-type'', ''application/vnd.apple.mpegurl'')])
              (example_request (Some ''https://cdn.dotstream.buzz/v/master.m3u8'')
                 (Some ''https://other.example/'')))
       = Text ''https://proxy.example/?url=https%3A%2F%2Fcdn.dotstream.buzz%2Fv%2F1.ts&referer=https%3A%2F%2Fmegaplay.buzz%2F''"
  (is "?h1 \<and> ?h2 \<and> ?h3 \<and> ?h4 \<and> ?h5 \<and> ?h6 \<and> ?c1 \<and> ?c2")
proof -
  have h1: ?h1 and h2: ?h2 and h3: ?h3 and h4: ?h4 and h5: ?h5 and h6: ?h6 by code_simp+
  have c2: ?c2 by code_simp
  from dotstream_referer [OF h1 h2 h3 h4 h5 h6] have ?c1 by (rule conjunct1)
  with h1 h2 h3 h4 h5 h6 c2 show ?thesis by (intro conjI)
qed

lemma content_type_kept:
  "Headers_get (without_embedding_headers (outbound_headers h)) ''content-type''
     = Headers_get (Headers_new h) ''content-type''"
proof -
  have d: "lower ''content-type'' \<noteq> lower ''X-Frame-Options''"
          "lower ''content-type'' \<noteq> lower ''Content-Security-Policy''"
          "lower ''content-type'' \<noteq> lower ''X-Proxy-Version''"
          "lower ''content-type'' \<noteq> lower ''Access-Control-Allow-Origin''"
    by (simp_all add: lower_names)
  show ?thesis
    by (simp add: without_embedding_headers_def outbound_headers_def
          Headers_get_delete_other Headers_get_set_other d)
qed

lemma Response_new_ok:
  "200 \<le> st \<Longrightarrow> st < 300 \<Longrightarrow> st \<noteq> 204 \<Longrightarrow> st \<noteq> 205 \<Longrightarrow>
   Response_new b st h = Inr \<lparr>status = st, headers = default_content_type b h, body = b\<rparr>"
  by (simp add: Response_new_def)

text \<open>
  Claim C4, as the code has it. For a proxied request whose upstream answers with a status
  from 200 to 299 (206 included) other than 204 and 205, with a body that can be read:
  the handler answers with the same status, and its body is the rewritten manifest text if
  the upstream content type contains \<^verbatim>\<open>mpegurl\<close> or the target URL contains \<^verbatim>\<open>.m3u8\<close>
  anywhere, and the upstream body stream, untouched, otherwise.
\<close>

theorem manifest_or_stream:
  assumes "req_method req \<noteq> ''OPTIONS''"
    and "url_param req = Some url" and "url \<noteq> []"
    and "parse_URL env url = Some targetUrl"
    and "parse_URL env (targetReferer req targetUrl) = Some targetOrigin"
    and "upstream_fetch env (request_for req url targetUrl) = Inr res"
    and "200 \<le> res_status res" and "res_status res < 300"
    and "res_status res \<noteq> 204" and "res_status res \<noteq> 205"
    and "res_body res = Some b"
    and "read_text env b = Inr manifestText"
  shows "status (fetch env req) = res_status res
         \<and> body (fetch env req) =
             (if str_includes (case Headers_get (Headers_new (res_headers res)) ''content-type'' of
                                 None \<Rightarrow> [] | Some v \<Rightarrow> v) ''mpegurl''
                 \<or> str_includes url ''.m3u8''
              then Text (rewrite_manifest
                           (proxyLine req url targetUrl (targetReferer req targetUrl)) manifestText)
              else Stream b)"
proof -
  let ?r = "\<lparr>up_status = res_status res,
             up_headers = res_headers res,
             up_ok = (if needsSocketFetch url targetUrl
                      then (200 \<le> res_status res \<and> res_status res < 300)
                           \<or> res_status res = 206
                      else Response_ok (res_status res)),
             up_body = res_body res\<rparr>"
  let ?h = "without_embedding_headers (outbound_headers (res_headers res))"
  have ok: "up_ok ?r \<or> up_status ?r = 206"
    using assms(7,8) by (simp add: Response_ok_def)
  have f: "fetch env req =
      (case respond env req url targetUrl (targetReferer req targetUrl) ?r of
         Inl e \<Rightarrow> internal_error e | Inr resp \<Rightarrow> resp)"
    using fetch_proxied [OF assms(1-5)] assms(6) by simp
  have m: "is_manifest ?h url =
      (str_includes (case Headers_get (Headers_new (res_headers res)) ''content-type'' of
                       None \<Rightarrow> [] | Some v \<Rightarrow> v) ''mpegurl''
       \<or> str_includes url ''.m3u8'')"
    by (simp add: is_manifest_def content_type_kept)
  show ?thesis
  proof (cases "is_manifest ?h url")
    case True
    have "respond env req url targetUrl (targetReferer req targetUrl) ?r =
        Response_new (Text (rewrite_manifest
                       (proxyLine req url targetUrl (targetReferer req targetUrl)) manifestText))
          (res_status res) ?h"
      using respond_manifest [OF ok, of url env req targetUrl "targetReferer req targetUrl"]
        True assms(11,12)
      by (simp add: body_text_def)
    with f True m show ?thesis
      by (simp add: Response_new_ok [OF assms(7-10)])
  next
    case False
    have "respond env req url targetUrl (targetReferer req targetUrl) ?r =
        Response_new (Stream b) (res_status res) ?h"
      using respond_stream [OF ok, of url env req targetUrl "targetReferer req targetUrl"]
        False assms(11)
      by simp
    with f False m show ?thesis
      by (simp add: Response_new_ok [OF assms(7-10)])
  qed
qed


theorem manifest_or_stream_witness:
  "req_method (example_request (Some ''https://cdn.example/seg/7.ts'') None) \<noteq> ''OPTIONS''
   \<and> url_param (example_request (Some ''https://cdn.example/seg/7.ts'') None)
       = Some ''https://cdn.example/seg/7.ts''
   \<and> ''https://cdn.example/seg/7.ts'' \<noteq> []
   \<and> parse_URL (example_platform 206 [(''content-type'', ''video/mp2t'')])
         ''https://cdn.example/seg/7.ts''
       = Some \<lparr>hostname = ''cdn.example'', port = [], pathname = ''/seg/7.ts'',
                origin = ''https://cdn.example''\<rparr>
   \<and> parse_URL (example_platform 206 [(''content-type'', ''video/mp2t'')])
         (targetReferer (example_request (Some ''https://cdn.example/seg/7.ts'') None)
            \<lparr>hostname = ''cdn.example'', port = [], pathname = ''/seg/7.ts'',
             origin = ''https://cdn.example''\<rparr>)
       = Some \<lparr>hostname = ''megacloud.tv'', port = [], pathname = ''/embed-2/e-1/'',
                origin = ''https://megacloud.tv''\<rparr>
   \<and> upstream_fetch (example_platform 206 [(''content-type'', ''video/mp2t'')])
         (request_for (example_request (Some ''https://cdn.example/seg/7.ts'') None)
            ''https://cdn.example/seg/7.ts''
            \<lparr>hostname = ''cdn.example'', port = [], pathname = ''/seg/7.ts'',
             origin = ''https://cdn.example''\<rparr>)
       = Inr \<lparr>res_status = 206, res_headers = [(''content-type'', ''video/mp2t'')],
               res_body = Some ''1.ts''\<rparr>
   \<and> 200 \<le> res_status \<lparr>res_status = 206, res_headers = [(''content-type'', ''video/mp2t'')],
               res_body = Some ''1.ts''\<rparr>
   \<and> res_status \<lparr>res_status = 206, res_headers = [(''content-type'', ''video/mp2t'')],
               res_body = Some ''1.ts''\<rparr> < 300
   \<and> res_status \<lparr>res_status = 206, res_headers = [(''content-type'', ''video/mp2t'')],
               res_body = Some ''1.ts''\<rparr> \<noteq> 204
   \<and> res_status \<lparr>res_status = 206, res_headers = [(''content-type'', ''video/mp2t'')],
               res_body = Some ''1.ts''\<rparr> \<noteq> 205
   \<and> res_body \<lparr>res_status = 206, res_headers = [(''content-type'', ''video/mp2t'')],
               res_body = Some ''1.ts''\<rparr> = Some ''1.ts''
   \<and> read_text (example_platform 206 [(''content-type'', ''video/mp2t'')]) ''1.ts'' = Inr ''1.ts''
   \<and> status (fetch (example_platform 206 [(''content-type'', ''video/mp2t'')])
                (example_request (Some ''https://cdn.example/seg/7.ts'') None)) = 206
   \<and> body (fetch (example_platform 206 [(''content-type'', ''video/mp2t'')])
              (example_request (Some ''https://cdn.example/seg/7.ts'') None)) = Stream ''1.ts''"
  (is "?h1 \<and> ?h2 \<and> ?h3 \<and> ?h4 \<and> ?h5 \<and> ?h6 \<and> ?h7 \<and> ?h8 \<and> ?h9 \<and> ?h10 \<and> ?h11 \<and> ?h12
       \<and> ?c1 \<and> ?c2")
proof -
  have h1: ?h1 and h2: ?h2 and h3: ?h3 and h4: ?h4 and h5: ?h5 and h6: ?h6
    and h7: ?h7 and h8: ?h8 and h9: ?h9 and h10: ?h10 and h11: ?h11 and h12: ?h12
    by code_simp+
  have n: "\<not> (str_includes (case Headers_get (Headers_new (res_headers
               \<lparr>res_status = 206, res_headers = [(''content-type'', ''video/mp2t'')],
                res_body = Some ''1.ts''\<rparr>)) ''content-type'' of
                                 None \<Rightarrow> [] | Some v \<Rightarrow> v) ''mpegurl''
          \<or> str_includes ''https://cdn.example/seg/7.ts'' ''.m3u8'')"
    by code_simp
  from manifest_or_stream [OF h1 h2 h3 h4 h5 h6 h7 h8 h9 h10 h11 h12] n
  have "?c1 \<and> ?c2" by simp
  with h1 h2 h3 h4 h5 h6 h7 h8 h9 h10 h11 h12 show ?thesis by blast
qed

text \<open>
  Where claim C4 fails as stated: the target \<^verbatim>\<open>https://cdn.example/show/index.m3u8?t=1\<close>
  does not end with \<^verbatim>\<open>.m3u8\<close> and the upstream content type \<^verbatim>\<open>text/plain\<close> does not
  contain \<^verbatim>\<open>mpegurl\<close>, and the body \<^verbatim>\<open>1.ts\<close> comes back rewritten, not streamed.
\<close>

theorem manifest_or_stream_counterexample:
  "\<not> suffix ''.m3u8'' ''https://cdn.example/show/index.m3u8?t=1''
   \<and> \<not> str_includes ''text/plain'' ''mpegurl''
   \<and> status (fetch (example_platform 200 [(''content-type'', ''text/plain'')])
                (example_request (Some ''https://cdn.example/show/index.m3u8?t=1'') None)) = 200
   \<and> body (fetch (example_platform 200 [(''content-type'', ''text/plain'')])
              (example_request (Some ''https://cdn.example/show/index.m3u8?t=1'') None))
       = Text ''https://proxy.example/?url=https%3A%2F%2Fcdn.example%2Fshow%2F1.ts&referer=https%3A%2F%2Fmegacloud.tv%2Fembed-2%2Fe-1%2F''"
  by code_simp

section \<open>Decoding a stream that arrives in one buffer\<close>

lemma hex_value_snoc: "hex_value (s @ [c]) = 16 * hex_value s + the (hexDigit c)"
  by (simp add: hex_value_def)

lemma to_hex_digits: "\<forall>c \<in> set (to_hex n). hexDigit c \<noteq> None"
proof (induction n rule: to_hex.induct)
  case (1 n)
  show ?case
  proof (cases "n < 16")
    case True
    then show ?thesis by (simp add: to_hex.simps [of n] hexDigit_hexChar)
  next
    case False
    have "hexDigit (hexChar (n mod 16)) = Some (n mod 16)" by (rule hexDigit_hexChar) simp
    with False "1.IH" show ?thesis by (simp add: to_hex.simps [of n])
  qed
qed

lemma to_hex_value: "hex_value (to_hex n) = n"
proof (induction n rule: to_hex.induct)
  case (1 n)
  show ?case
  proof (cases "n < 16")
    case True
    then show ?thesis by (simp add: to_hex.simps [of n] hex_value_def hexDigit_hexChar)
  next
    case False
    have "hexDigit (hexChar (n mod 16)) = Some (n mod 16)" by (rule hexDigit_hexChar) simp
    with False "1.IH" show ?thesis
      by (simp add: to_hex.simps [of n] hex_value_snoc)
  qed
qed

lemma to_hex_nonempty: "to_hex n \<noteq> []"
  by (simp add: to_hex.simps [of n])

lemma to_hex_head: "0 < n \<Longrightarrow> \<exists>k. 0 < k \<and> k < 16 \<and> hd (to_hex n) = hexChar k"
proof (induction n rule: to_hex.induct)
  case (1 n)
  show ?case
  proof (cases "n < 16")
    case True
    with "1.prems" show ?thesis by (auto simp: to_hex.simps [of n])
  next
    case False
    then have "0 < n div 16" by (simp add: div_greater_zero_iff)
    with False "1.IH" obtain k where "0 < k" "k < 16" "hd (to_hex (n div 16)) = hexChar k"
      by auto
    with False to_hex_nonempty [of "n div 16"] show ?thesis
      by (auto simp: to_hex.simps [of n])
  qed
qed

lemma char_of_byte_bytes_of: "map char_of_byte (bytes_of s) = s"
  by (induction s) (simp_all add: char_of_byte_def bytes_of_def unat_of_nat)

lemma hexDigit_ascii: "hexDigit c \<noteq> None \<Longrightarrow> (of_char c :: nat) < 128"
  by (simp add: hexDigit_def Let_def split: if_splits)

lemma utf8_replace_ascii: "\<forall>c \<in> set s. (of_char c :: nat) < 128 \<Longrightarrow> utf8_replace s = s"
  by (induction s) (simp_all add: utf8_step_def)

lemma hexDigit_specials:
  "hexDigit CHR 0xEF = None" "hexDigit CHR ''-'' = None" "hexDigit CHR ''+'' = None"
  "hexDigit CHR 0x0D = None" "hexDigit CHR ''0'' = Some 0"
  by code_simp+

lemma TextDecoder_decode_hex:
  assumes "\<forall>c \<in> set s. hexDigit c \<noteq> None"
  shows "TextDecoder_decode (bytes_of s) = s"
proof -
  have "take 3 s \<noteq> [CHR 0xEF, CHR 0xBB, CHR 0xBF]"
  proof
    assume "take 3 s = [CHR 0xEF, CHR 0xBB, CHR 0xBF]"
    then have "CHR 0xEF \<in> set s" by (metis in_set_takeD list.set_intros(1))
    with assms hexDigit_specials(1) show False by auto
  qed
  moreover have "utf8_replace s = s"
    using assms hexDigit_ascii by (intro utf8_replace_ascii) auto
  ultimately show ?thesis by (simp add: TextDecoder_decode_def char_of_byte_bytes_of)
qed

lemma white_space_not_hex: "\<forall>w \<in> set StrWhiteSpaceChar. w \<noteq> [] \<and> hexDigit (hd w) = None"
  by (simp add: StrWhiteSpaceChar_def hexDigit_def)

lemma trimStart_hex:
  assumes "s \<noteq> []" and "hexDigit (hd s) \<noteq> None"
  shows "trimStart s = s"
proof -
  have "\<not> prefix w s" if "w \<in> set StrWhiteSpaceChar" for w
  proof
    assume "prefix w s"
    moreover from that white_space_not_hex have "w \<noteq> []" and "hexDigit (hd w) = None" by auto
    ultimately have "hd s = hd w" by (auto simp: prefix_def)
    with \<open>hexDigit (hd w) = None\<close> assms(2) show False by simp
  qed
  then have "filter (\<lambda>w. prefix w s) StrWhiteSpaceChar = []"
    by (simp add: filter_empty_conv)
  then have "ws_prefix_len s = 0" by (simp add: ws_prefix_len_def)
  then show ?thesis by (simp add: trimStart.simps [of s])
qed

lemma parseInt16_hex:
  assumes "s \<noteq> []" and "\<forall>c \<in> set s. hexDigit c \<noteq> None" and "hd s \<noteq> CHR ''0''"
  shows "parseInt16 s = Some (int (hex_value s))"
proof -
  from assms(1) obtain c cs where s: "s = c # cs" by (cases s) auto
  have c: "hexDigit c \<noteq> None" "c \<noteq> CHR ''0''" using assms(2,3) s by auto
  then have c': "c \<noteq> CHR ''-''" "c \<noteq> CHR ''+''" using hexDigit_specials by auto
  have t: "trimStart s = s" using assms(1,2) by (intro trimStart_hex) auto
  have z: "takeWhile (\<lambda>c. hexDigit c \<noteq> None) s = s"
    using assms(2) by (simp add: takeWhile_eq_all_conv)
  have p: "take 1 s \<noteq> ''-''" "take 1 s \<noteq> ''+''" "take 2 s \<noteq> ''0x''" "take 2 s \<noteq> ''0X''"
    using c c' by (auto simp: s)
  have e: "parseInt16 s =
      (if takeWhile (\<lambda>c. hexDigit c \<noteq> None) s = [] then None
       else Some (int (foldl (\<lambda>a c. 16 * a + the (hexDigit c)) 0
                         (takeWhile (\<lambda>c. hexDigit c \<noteq> None) s))))"
    unfolding parseInt16_def t Let_def using p by simp
  show ?thesis
    unfolding e z using assms(1) by (simp add: hex_value_def)
qed

lemma size_line_parse:
  assumes "0 < n"
  shows "parseInt16 (TextDecoder_decode (bytes_of (to_hex n))) = Some (int n)"
proof -
  from to_hex_head [OF assms] obtain k where k: "0 < k" "k < 16" "hd (to_hex n) = hexChar k"
    by blast
  have "hexChar k \<noteq> CHR ''0''"
  proof
    assume "hexChar k = CHR ''0''"
    then have "hexDigit (hexChar k) = Some 0" by (simp add: hexDigit_specials)
    with hexDigit_hexChar [OF k(2)] k(1) show False by simp
  qed
  with k have "hd (to_hex n) \<noteq> CHR ''0''" by simp
  then have "parseInt16 (to_hex n) = Some (int (hex_value (to_hex n)))"
    using to_hex_nonempty to_hex_digits by (intro parseInt16_hex) auto
  then show ?thesis by (simp add: TextDecoder_decode_hex to_hex_digits to_hex_value)
qed

lemma no_CR_in_hex: "\<forall>c \<in> set s. hexDigit c \<noteq> None \<Longrightarrow> 13 \<notin> set (bytes_of s)"
proof
  assume h: "\<forall>c \<in> set s. hexDigit c \<noteq> None" and "13 \<in> set (bytes_of s)"
  then obtain c where c: "c \<in> set s" "(of_nat (of_char c) :: byte) = 13"
    by (auto simp: bytes_of_def)
  from c(2) have "char_of_byte (of_nat (of_char c)) = char_of_byte 13" by simp
  moreover have "char_of_byte (of_nat (of_char c)) = c"
    by (simp add: char_of_byte_def unat_of_nat)
  moreover have "char_of_byte 13 = CHR 0x0D" by code_simp
  ultimately have "c = CHR 0x0D" by simp
  with h c(1) hexDigit_specials(4) show False by auto
qed

lemma size_step:
  assumes "state d = SIZE"
    and "buffer d = bytes_of (to_hex n) @ 13 # 10 # rest"
    and "0 < n"
  shows "transform_loop d =
           transform_loop (d\<lparr>chunkSize := Some (int n), buffer := rest, state := DATA\<rparr>)"
proof -
  let ?line = "bytes_of (to_hex n)"
  have ne: "buffer d \<noteq> []" using assms(2) by simp
  have "13 \<notin> set ?line" using to_hex_digits by (intro no_CR_in_hex) auto
  then have ix: "indexOf (buffer d) 13 = Some (length ?line)"
    using assms(2) by (simp add: indexOf_append_first)
  have sl: "slice (buffer d) 0 (int (length ?line)) = ?line"
    using assms(2) by (simp add: slice_prefix)
  have sf: "slice_from (buffer d) (int (length ?line) + 2) = rest"
    using assms(2) slice_from_skip2 [of ?line 13 10 rest] by simp
  have "loop_body d = Continue [] (d\<lparr>chunkSize := Some (int n), buffer := rest, state := DATA\<rparr>)"
    using assms(1,3) ix sl sf size_line_parse [OF assms(3)]
    by (simp add: loop_body_def Let_def isNaN_def)
  with ne show ?thesis
    by (simp add: transform_loop.simps [of d] case_prod_beta)
qed

text \<open>
  The DATA state with the payload and the two bytes after it in the buffer: the payload is
  enqueued, the two bytes are skipped and the loop goes on in the SIZE state.
\<close>

lemma data_step:
  assumes "state d = DATA"
    and "chunkSize d = Some (int (length payload))"
    and "buffer d = payload @ a # b # rest"
  shows "transform_loop d =
           (Enqueue payload # fst (transform_loop (d\<lparr>buffer := rest, state := SIZE\<rparr>)),
            snd (transform_loop (d\<lparr>buffer := rest, state := SIZE\<rparr>)))"
proof -
  have ne: "buffer d \<noteq> []" using assms(3) by simp
  have lt: "\<not> js_less (Some (int (length (buffer d)))) (chunkSize d)"
    using assms(2,3) by (simp add: js_less_def)
  have sl: "slice (buffer d) 0 (ToInteger (chunkSize d)) = payload"
    using assms(2,3) by (simp add: ToInteger_def slice_prefix)
  have sf: "slice_from (buffer d) (ToInteger (js_plus (chunkSize d) (Some 2))) = rest"
    using assms(2,3) slice_from_skip2 [of payload a b rest]
    by (simp add: ToInteger_def js_plus_def)
  have "loop_body d = Continue [Enqueue payload] (d\<lparr>buffer := rest, state := SIZE\<rparr>)"
    using assms(1) lt sl sf by (simp add: loop_body_def)
  with ne show ?thesis
    by (simp add: transform_loop.simps [of d] case_prod_beta)
qed

lemma zero_line_parse: "parseInt16 (TextDecoder_decode (bytes_of ''0'')) = Some 0"
  by code_simp

lemma decode_whole:
  assumes "state d = SIZE"
    and "\<forall>p \<in> set payloads. p \<noteq> []"
    and "buffer d = chunked_encoding payloads"
  shows "fst (transform_loop d) = map Enqueue payloads"
  using assms
proof (induction payloads arbitrary: d)
  case Nil
  have "buffer d = bytes_of ''0'' @ [13, 10, 13] @ [10]"
    using Nil.prems(3) by (simp add: chunked_encoding_def)
  moreover have "13 \<notin> set (bytes_of ''0'')" by (simp add: bytes_of_def)
  ultimately have "transform_loop d = ([], d\<lparr>chunkSize := Some 0, buffer := [], state := FOOTER\<rparr>)"
    using Nil.prems(1) zero_line_parse by (intro zero_chunk_then_blank_line) auto
  then show ?case by simp
next
  case (Cons p ps)
  let ?d1 = "d\<lparr>chunkSize := Some (int (length p)),
               buffer := p @ 13 # 10 # chunked_encoding ps, state := DATA\<rparr>"
  let ?d2 = "?d1\<lparr>buffer := chunked_encoding ps, state := SIZE\<rparr>"
  have p: "0 < length p" using Cons.prems(2) by simp
  have b: "buffer d = bytes_of (to_hex (length p)) @ 13 # 10 # (p @ 13 # 10 # chunked_encoding ps)"
    using Cons.prems(3) by (simp add: chunked_encoding_def chunk_of_def)
  have 1: "transform_loop d = transform_loop ?d1"
    using size_step [OF Cons.prems(1) b p] .
  have 2: "transform_loop ?d1 =
             (Enqueue p # fst (transform_loop ?d2), snd (transform_loop ?d2))"
    by (rule data_step) simp_all
  have 3: "fst (transform_loop ?d2) = map Enqueue ps"
    using Cons.prems(2) by (intro Cons.IH) simp_all
  from 1 2 3 show ?case by simp
qed

lemma not_errored_map_Enqueue: "\<not> errored (map Enqueue ps)"
  by (simp add: errored_def list_ex_iff)

lemma emitted_map_Enqueue: "emitted (map Enqueue ps) = concat ps"
  by (induction ps) simp_all

text \<open>
  What the decoder does get right: the chunked encoding of any list of non-empty payloads,
  written to a fresh decoder in one buffer, comes out as exactly those payloads, in order.
\<close>

lemma whole_buffer_decodes:
  assumes "\<forall>p \<in> set payloads. p \<noteq> []"
  shows "pipeThrough DechunkingStream_new [chunked_encoding payloads] = map Enqueue payloads"
    and "emitted (pipeThrough DechunkingStream_new [chunked_encoding payloads]) = concat payloads"
proof -
  let ?d = "DechunkingStream_new\<lparr>buffer := merge (buffer DechunkingStream_new)
                                            (chunked_encoding payloads)\<rparr>"
  have "fst (transform_loop ?d) = map Enqueue payloads"
    using assms by (intro decode_whole) (simp_all add: DechunkingStream_new_def merge_def)
  then show "pipeThrough DechunkingStream_new [chunked_encoding payloads] = map Enqueue payloads"
    by (simp add: transform_def case_prod_beta not_errored_map_Enqueue)
  then show "emitted (pipeThrough DechunkingStream_new [chunked_encoding payloads]) = concat payloads"
    by (simp add: emitted_map_Enqueue)
qed

end
